theory Spec2Isabelle
  imports Main "HOL-Library.Word" "HOL-Library.AList" "HOL-Library.Multiset"
begin

section \<open>Battleship Guru: the prediction engine of guru.py\<close>

text \<open>
  A shallow embedding of the class \<open>Battleship\<close> of \<open>src/guru.py\<close>.  Python integers are
  \<open>int\<close>; the board is a list of columns, each a list of one-character strings, read
  as \<open>board[x][y]\<close>; the probability map is a numpy array of dtype int32, a list of
  columns of 32-bit words read with \<open>sint\<close>.  Every Python exception the code can raise is
  a value of \<open>error\<close>.
\<close>

subsection \<open>Python sequences\<close>

datatype error = IndexError | ValueError | AttributeError | KeyError

fun ebind :: "error + 'a \<Rightarrow> ('a \<Rightarrow> error + 'b) \<Rightarrow> error + 'b" where
  "ebind (Inl e) f = Inl e"
| "ebind (Inr a) f = f a"

text \<open>
  Indexing a sequence of length \<open>n\<close> with \<open>i\<close>: a negative index counts from the end, and
  an index outside \<open>[-n, n)\<close> raises IndexError.  Lists and numpy arrays agree on this.
\<close>

definition norm_index :: "nat \<Rightarrow> int \<Rightarrow> error + nat" where
  "norm_index n i =
     (let j = (if i < 0 then int n + i else i)
      in if 0 \<le> j \<and> j < int n then Inr (nat j) else Inl IndexError)"

definition getitem :: "'a list \<Rightarrow> int \<Rightarrow> error + 'a" where
  "getitem xs i = ebind (norm_index (length xs) i) (\<lambda>k. Inr (xs ! k))"

definition setitem :: "'a list \<Rightarrow> int \<Rightarrow> 'a \<Rightarrow> error + 'a list" where
  "setitem xs i v = ebind (norm_index (length xs) i) (\<lambda>k. Inr (xs[k := v]))"

text \<open>\<open>b[i][j]\<close> and \<open>b[i][j] = v\<close> on a list of lists (the inner lists are not shared).\<close>

definition getitem2 :: "'a list list \<Rightarrow> int \<Rightarrow> int \<Rightarrow> error + 'a" where
  "getitem2 b i j = ebind (getitem b i) (\<lambda>col. getitem col j)"

definition setitem2 :: "'a list list \<Rightarrow> int \<Rightarrow> int \<Rightarrow> 'a \<Rightarrow> error + 'a list list" where
  "setitem2 b i j v =
     ebind (getitem b i) (\<lambda>col. ebind (setitem col j v) (\<lambda>col'. setitem b i col'))"

text \<open>\<open>range(a, b)\<close>, and \<open>range(n)\<close> as \<open>py_range 0 n\<close>.\<close>

definition py_range :: "int \<Rightarrow> int \<Rightarrow> int list" where
  "py_range a b = [a..b - 1]"

text \<open>A \<open>for\<close> loop over a sequence whose body may raise; the loop state is threaded.\<close>

fun for_loop :: "'i list \<Rightarrow> ('i \<Rightarrow> 's \<Rightarrow> error + 's) \<Rightarrow> 's \<Rightarrow> error + 's" where
  "for_loop [] body s = Inr s"
| "for_loop (i # rest) body s = ebind (body i s) (for_loop rest body)"

text \<open>
  The loop state a \<open>for\<close> loop leaves behind when the state is an object mutated in place:
  the final state when no iteration raises, else what the raising iteration has left, given
  by \<open>left\<close>.
\<close>

fun for_loop_left :: "'i list \<Rightarrow> ('i \<Rightarrow> 's \<Rightarrow> error + 's) \<Rightarrow> ('i \<Rightarrow> 's \<Rightarrow> 's) \<Rightarrow> 's \<Rightarrow> 's" where
  "for_loop_left [] body left s = s"
| "for_loop_left (i # rest) body left s =
     (case body i s of Inl e \<Rightarrow> left i s | Inr s' \<Rightarrow> for_loop_left rest body left s')"

text \<open>
  \<open>random.choice(seq)\<close> with the random source made explicit: \<open>r\<close> is the draw, the
  element picked is number \<open>r mod len(seq)\<close>; an empty sequence raises IndexError.
\<close>

definition choice :: "nat \<Rightarrow> 'a list \<Rightarrow> error + 'a" where
  "choice r xs = (if xs = [] then Inl IndexError else Inr (xs ! (r mod length xs)))"

text \<open>
  A dict literal \<open>{k1: v1, k2: v2, ...}\<close> as an association list in insertion order: a
  repeated key keeps its first position and takes the last value.
\<close>

definition py_dict :: "('k \<times> 'v) list \<Rightarrow> ('k \<times> 'v) list" where
  "py_dict kvs = foldl (\<lambda>d (k, v). AList.update k v d) [] kvs"

subsection \<open>The game object\<close>

type_synonym coord = "int \<times> int"
type_synonym int32 = "32 word"

record game =
  ships :: "int list"
  mode :: string
  width :: int
  height :: int
  board :: "string list list"
  hit_mem :: "coord list"
  prob_map :: "int32 list list option"
  pred :: "coord option"

text \<open>
  What a method call leaves behind: it returns a value, or raises, and in both cases
  the object is in some state.
\<close>

datatype 'a outcome = Returns 'a game | Raises error game

fun and_then :: "'a outcome \<Rightarrow> (game \<Rightarrow> 'b outcome) \<Rightarrow> 'b outcome" where
  "and_then (Returns a g) f = f g"
| "and_then (Raises e g) f = Raises e g"

fun state_of :: "'a outcome \<Rightarrow> game" where
  "state_of (Returns a g) = g"
| "state_of (Raises e g) = g"

text \<open>\<open>__init__\<close>: \<open>range\<close> of a negative number is empty.\<close>

definition new_game :: "int list \<Rightarrow> string \<Rightarrow> int \<Rightarrow> int \<Rightarrow> game" where
  "new_game ss m w h =
     \<lparr>ships = ss, mode = m, width = w, height = h,
      board = replicate (nat w) (replicate (nat h) ''.''),
      hit_mem = [], prob_map = None, pred = None\<rparr>"

subsection \<open>\<open>_gen_prob_map\<close>\<close>

text \<open>\<open>np.zeros((width, height), dtype="int32")\<close>: a negative dimension raises ValueError.\<close>

definition np_zeros :: "int \<Rightarrow> int \<Rightarrow> error + int32 list list" where
  "np_zeros w h =
     (if w < 0 \<or> h < 0 then Inl ValueError
      else Inr (replicate (nat w) (replicate (nat h) 0)))"

text \<open>\<open>self.prob_map[i][j] += 1\<close>, in int32 arithmetic.\<close>

definition incr :: "int32 list list \<Rightarrow> int \<Rightarrow> int \<Rightarrow> error + int32 list list" where
  "incr P i j = ebind (getitem2 P i j) (\<lambda>v. setitem2 P i j (v + 1))"

text \<open>
  The body of the loop over \<open>shift\<close>: the two tests short-circuit, so the board is read
  only when the coordinate is below the width (the height).
\<close>

definition check_shift :: "game \<Rightarrow> int \<Rightarrow> int \<Rightarrow> int \<Rightarrow> bool \<times> bool \<Rightarrow> error + bool \<times> bool" where
  "check_shift g x y shift v =
     ebind (if x + shift \<ge> width g then Inr True
            else ebind (getitem2 (board g) (x + shift) y) (\<lambda>c. Inr (c \<noteq> ''.'')))
       (\<lambda>x_bad.
     ebind (if y + shift \<ge> height g then Inr True
            else ebind (getitem2 (board g) x (y + shift)) (\<lambda>c. Inr (c \<noteq> ''.'')))
       (\<lambda>y_bad.
     Inr (if x_bad then False else fst v, if y_bad then False else snd v)))"

text \<open>The body of the loop over \<open>x\<close>, for one ship and one \<open>y\<close>.\<close>

definition place_at :: "game \<Rightarrow> int \<Rightarrow> int \<Rightarrow> int \<Rightarrow> int32 list list \<Rightarrow> error + int32 list list" where
  "place_at g ship y x P =
     ebind (for_loop (py_range 0 ship) (check_shift g x y) (True, True)) (\<lambda>(x_valid, y_valid).
     ebind (if x_valid
            then for_loop (py_range 0 ship) (\<lambda>x_shift Q. incr Q (x + x_shift) y) P
            else Inr P) (\<lambda>P1.
     if y_valid
     then for_loop (py_range 0 ship) (\<lambda>y_shift Q. incr Q x (y + y_shift)) P1
     else Inr P1))"

definition gen_prob_map :: "game \<Rightarrow> error + int32 list list" where
  "gen_prob_map g =
     ebind (np_zeros (width g) (height g)) (\<lambda>P0.
       for_loop (ships g) (\<lambda>ship.
         for_loop (py_range 0 (height g)) (\<lambda>y.
           for_loop (py_range 0 (width g)) (place_at g ship y))) P0)"

text \<open>
  The array is assigned to \<open>self.prob_map\<close> before the loops and incremented in place, so a
  call that raises inside the loops leaves the array as far as it was filled.  A raising
  \<open>+= 1\<close> changes nothing; \<open>place_at_left\<close> is the array one step of the loop over \<open>x\<close> leaves,
  \<open>gen_prob_map_left g P0\<close> the array the three loops leave, started on \<open>P0\<close>.
\<close>

definition place_at_left :: "game \<Rightarrow> int \<Rightarrow> int \<Rightarrow> int \<Rightarrow> int32 list list \<Rightarrow> int32 list list" where
  "place_at_left g ship y x P =
     (case for_loop (py_range 0 ship) (check_shift g x y) (True, True) of
        Inl e \<Rightarrow> P
      | Inr (x_valid, y_valid) \<Rightarrow>
          (let down = (\<lambda>P1. if y_valid
                     then for_loop_left (py_range 0 ship) (\<lambda>y_shift Q. incr Q x (y + y_shift))
                            (\<lambda>y_shift Q. Q) P1
                     else P1)
           in if x_valid
              then (case for_loop (py_range 0 ship) (\<lambda>x_shift Q. incr Q (x + x_shift) y) P of
                      Inl e \<Rightarrow> for_loop_left (py_range 0 ship) (\<lambda>x_shift Q. incr Q (x + x_shift) y)
                                 (\<lambda>x_shift Q. Q) P
                    | Inr P1 \<Rightarrow> down P1)
              else down P))"

definition gen_prob_map_left :: "game \<Rightarrow> int32 list list \<Rightarrow> int32 list list" where
  "gen_prob_map_left g P0 =
     for_loop_left (ships g)
       (\<lambda>ship. for_loop (py_range 0 (height g)) (\<lambda>y.
                 for_loop (py_range 0 (width g)) (place_at g ship y)))
       (\<lambda>ship. for_loop_left (py_range 0 (height g))
                 (\<lambda>y. for_loop (py_range 0 (width g)) (place_at g ship y))
                 (\<lambda>y. for_loop_left (py_range 0 (width g)) (place_at g ship y)
                        (place_at_left g ship y)))
       P0"

subsection \<open>\<open>_gen_hit_map\<close>\<close>

text \<open>
  One of the four counting loops: \<open>cell\<close> reads the board at a location of the range, the
  loop stops (\<open>break\<close>) at the first mark other than \<open>'.'\<close>.
\<close>

fun count_run :: "(int \<Rightarrow> error + string) \<Rightarrow> int list \<Rightarrow> int \<Rightarrow> error + int" where
  "count_run cell [] n = Inr n"
| "count_run cell (loc # rest) n =
     ebind (cell loc) (\<lambda>c. if c \<noteq> ''.'' then Inr n else count_run cell rest (n + 1))"

definition gen_hit_map :: "game \<Rightarrow> int \<Rightarrow> int \<Rightarrow> error + (coord \<times> int) list" where
  "gen_hit_map g tile_x tile_y =
     ebind (count_run (\<lambda>loc. getitem2 (board g) loc tile_y)
              (py_range (tile_x + 1) (width g)) 0) (\<lambda>right.
     ebind (count_run (\<lambda>loc. getitem2 (board g) loc tile_y)
              (rev (py_range 0 tile_x)) 0) (\<lambda>left.
     ebind (count_run (\<lambda>loc. getitem2 (board g) tile_x loc)
              (py_range (tile_y + 1) (height g)) 0) (\<lambda>down.
     ebind (count_run (\<lambda>loc. getitem2 (board g) tile_x loc)
              (rev (py_range 0 tile_y)) 0) (\<lambda>up.
     Inr (py_dict
       [((tile_x + 1, tile_y), right),
        ((tile_x - 1, tile_y), left),
        ((tile_x, tile_y + 1), down),
        ((tile_x, tile_y - 1), up)])))))"

subsection \<open>\<open>predict\<close>\<close>

text \<open>\<open>d[k]\<close> on a dict: a missing key raises KeyError.\<close>

definition dict_get :: "('k \<times> 'v) list \<Rightarrow> 'k \<Rightarrow> error + 'v" where
  "dict_get d k = (case map_of d k of None \<Rightarrow> Inl KeyError | Some v \<Rightarrow> Inr v)"

text \<open>
  \<open>np.max\<close> of a two-dimensional int32 array (signed comparison); an array without
  elements raises ValueError.
\<close>

definition np_max :: "int32 list list \<Rightarrow> error + int" where
  "np_max P = (if concat P = [] then Inl ValueError else Inr (Max (set (map sint (concat P)))))"

text \<open>\<open>np.argwhere(P == m)\<close>: the index pairs of the matching cells, in row-major order.\<close>

definition argwhere :: "int32 list list \<Rightarrow> int \<Rightarrow> coord list" where
  "argwhere P m =
     concat (map (\<lambda>i. map (\<lambda>j. (int i, int j))
                        (filter (\<lambda>j. sint (P ! i ! j) = m) [0..<length (P ! i)]))
                 [0..<length P])"

text \<open>
  The branch for no pending hit: the map is built and stored, and the coordinates of its
  maximum are the choices.
\<close>

definition prob_choices :: "game \<Rightarrow> error + game \<times> coord list" where
  "prob_choices g =
     ebind (gen_prob_map g) (\<lambda>P.
     ebind (np_max P) (\<lambda>m.
     Inr (g\<lparr>prob_map := Some P\<rparr>, argwhere P m)))"

text \<open>
  The hit map of the branch for pending hits, with the object after the in-place sort of
  the hit memory (\<open>list.sort\<close> is stable, as \<open>sort_key\<close> is).
\<close>

definition build_hit_map :: "game \<Rightarrow> error + game \<times> (coord \<times> int) list" where
  "build_hit_map g =
     (if length (hit_mem g) = 1 then
        ebind (gen_hit_map g (fst (hit_mem g ! 0)) (snd (hit_mem g ! 0))) (\<lambda>hm. Inr (g, hm))
      else if fst (hit_mem g ! 0) = fst (last (hit_mem g)) then
        (let g1 = g\<lparr>hit_mem := sort_key snd (hit_mem g)\<rparr>;
             lower_hit = last (hit_mem g1);
             upper_hit = hit_mem g1 ! 0
         in ebind (ebind (gen_hit_map g1 (fst lower_hit) (snd lower_hit))
                     (\<lambda>d. dict_get d (fst lower_hit, snd lower_hit + 1))) (\<lambda>v1.
            ebind (ebind (gen_hit_map g1 (fst upper_hit) (snd upper_hit))
                     (\<lambda>d. dict_get d (fst upper_hit, snd upper_hit - 1))) (\<lambda>v2.
            Inr (g1, py_dict
              [((fst lower_hit, snd lower_hit + 1), v1),
               ((fst upper_hit, snd upper_hit - 1), v2)]))))
      else
        (let g1 = g\<lparr>hit_mem := sort_key fst (hit_mem g)\<rparr>;
             left_hit = last (hit_mem g1);
             right_hit = hit_mem g1 ! 0
         in ebind (ebind (gen_hit_map g1 (fst left_hit) (snd left_hit))
                     (\<lambda>d. dict_get d (fst left_hit + 1, snd left_hit))) (\<lambda>v1.
            ebind (ebind (gen_hit_map g1 (fst right_hit) (snd right_hit))
                     (\<lambda>d. dict_get d (fst right_hit - 1, snd right_hit))) (\<lambda>v2.
            Inr (g1, py_dict
              [((fst left_hit + 1, snd left_hit), v1),
               ((fst right_hit - 1, snd right_hit), v2)])))))"

text \<open>The keys of the hit map whose value is the maximum, in the dict's order.\<close>

definition hit_choices :: "game \<Rightarrow> error + game \<times> coord list" where
  "hit_choices g =
     ebind (build_hit_map g) (\<lambda>(g1, hit_map).
       let dict_max = Max (set (map snd hit_map))
       in Inr (g1, map fst (filter (\<lambda>(key, val). val = dict_max) hit_map)))"

text \<open>
  The object a call of \<open>predict\<close> leaves when it raises before \<open>pred_x\<close>, \<open>pred_y\<close> are set.
  With no pending hit \<open>np.zeros\<close> has raised and nothing is stored, or the map is stored as
  far as it was filled (filled completely when it is \<open>np.max\<close> or the choice that raises).
  With pending hits nothing has changed when there is one hit, else the hit memory has been
  sorted in place, by \<open>y\<close> or by \<open>x\<close>, before the hit map is built.
\<close>

definition predict_left :: "game \<Rightarrow> game" where
  "predict_left g =
     (if length (hit_mem g) = 0 then
        (case np_zeros (width g) (height g) of
           Inl e \<Rightarrow> g
         | Inr P0 \<Rightarrow> g\<lparr>prob_map := Some (gen_prob_map_left g P0)\<rparr>)
      else if length (hit_mem g) = 1 then g
      else if fst (hit_mem g ! 0) = fst (last (hit_mem g)) then
        g\<lparr>hit_mem := sort_key snd (hit_mem g)\<rparr>
      else g\<lparr>hit_mem := sort_key fst (hit_mem g)\<rparr>)"

text \<open>
  \<open>predict\<close> with the draw \<open>r\<close> of the random source.  A call that raises before the choice
  leaves the object \<open>predict_left\<close>; one that raises on marking the board has stored the
  prediction.
\<close>

definition predict :: "game \<Rightarrow> nat \<Rightarrow> unit outcome" where
  "predict g r =
     (case ebind (if length (hit_mem g) = 0 then prob_choices g else hit_choices g)
             (\<lambda>(g1, choices). ebind (choice r choices) (\<lambda>p. Inr (g1, p))) of
        Inl e \<Rightarrow> Raises e (predict_left g)
      | Inr (g1, p) \<Rightarrow>
          (let g2 = g1\<lparr>pred := Some p\<rparr>
           in case setitem2 (board g2) (fst p) (snd p) ''+'' of
                Inl e \<Rightarrow> Raises e g2
              | Inr b \<Rightarrow> Returns () (g2\<lparr>board := b\<rparr>)))"

subsection \<open>\<open>_clear_tile\<close>, \<open>_clear_edges\<close>, \<open>sink\<close>, \<open>update\<close>\<close>

definition clear_tile :: "game \<Rightarrow> int \<Rightarrow> int \<Rightarrow> unit outcome" where
  "clear_tile g tile_x tile_y =
     (case getitem2 (board g) tile_x tile_y of
        Inl e \<Rightarrow> Raises e g
      | Inr c \<Rightarrow>
          if c \<noteq> ''#'' then
            (case setitem2 (board g) tile_x tile_y ''o'' of
               Inl e \<Rightarrow> Raises e g
             | Inr b \<Rightarrow> Returns () (g\<lparr>board := b\<rparr>))
          else Returns () g)"

definition clear_edges :: "game \<Rightarrow> int \<Rightarrow> int \<Rightarrow> unit outcome" where
  "clear_edges g tile_x tile_y =
     and_then (clear_tile g (tile_x + 1) tile_y) (\<lambda>g.
     and_then (clear_tile g (tile_x - 1) tile_y) (\<lambda>g.
     and_then (clear_tile g tile_x (tile_y + 1)) (\<lambda>g.
     and_then (clear_tile g tile_x (tile_y - 1)) (\<lambda>g.
     and_then (clear_tile g (tile_x + 1) (tile_y + 1)) (\<lambda>g.
     and_then (clear_tile g (tile_x - 1) (tile_y - 1)) (\<lambda>g.
     and_then (clear_tile g (tile_x + 1) (tile_y - 1)) (\<lambda>g.
     clear_tile g (tile_x - 1) (tile_y + 1))))))))"

text \<open>
  The body of both \<open>while\<close> loops of \<open>sink\<close>: mark the tile, remove it from the hit memory
  (\<open>list.remove\<close> raises ValueError when it is absent), clear its edges in mode \<open>"n"\<close>.
\<close>

definition sink_tile :: "game \<Rightarrow> int \<Rightarrow> int \<Rightarrow> unit outcome" where
  "sink_tile g x y =
     (case setitem2 (board g) x y ''#'' of
        Inl e \<Rightarrow> Raises e g
      | Inr b \<Rightarrow>
          (let g1 = g\<lparr>board := b\<rparr>
           in if (x, y) \<notin> set (hit_mem g1) then Raises ValueError g1
              else (let g2 = g1\<lparr>hit_mem := remove1 (x, y) (hit_mem g1)\<rparr>
                    in if mode g2 = ''n'' then clear_edges g2 x y else Returns () g2)))"

function sink_column :: "game \<Rightarrow> int \<Rightarrow> int \<Rightarrow> int \<Rightarrow> unit outcome" where
  "sink_column g start_x start_y end_y =
     (if start_y \<le> end_y
      then and_then (sink_tile g start_x start_y) (\<lambda>g'. sink_column g' start_x (start_y + 1) end_y)
      else Returns () g)"
  by pat_completeness auto
termination
  by (relation "measure (\<lambda>(g, x, y, e). nat (e + 1 - y))") auto

function sink_row :: "game \<Rightarrow> int \<Rightarrow> int \<Rightarrow> int \<Rightarrow> unit outcome" where
  "sink_row g start_x end_x start_y =
     (if start_x \<le> end_x
      then and_then (sink_tile g start_x start_y) (\<lambda>g'. sink_row g' (start_x + 1) end_x start_y)
      else Returns () g)"
  by pat_completeness auto
termination
  by (relation "measure (\<lambda>(g, x, e, y). nat (e + 1 - x))") auto

text \<open>
  The loop over the indices of \<open>self.ships\<close>: the first entry equal to \<open>sunk\<close> is deleted
  and the loop left; without such an entry the list is as before.
\<close>

fun del_first :: "int \<Rightarrow> int list \<Rightarrow> int list" where
  "del_first sunk [] = []"
| "del_first sunk (s # rest) = (if s = sunk then rest else s # del_first sunk rest)"

definition remove_ship :: "game \<Rightarrow> int \<Rightarrow> bool outcome" where
  "remove_ship g sunk =
     (let g' = g\<lparr>ships := del_first sunk (ships g)\<rparr>
      in Returns (length (ships g') = 0) g')"

definition sink :: "game \<Rightarrow> int \<Rightarrow> int \<Rightarrow> int \<Rightarrow> int \<Rightarrow> bool outcome" where
  "sink g start_x start_y end_x end_y =
     (if start_x = end_x then
        (let (start_y, end_y) = (if start_y > end_y then (end_y, start_y) else (start_y, end_y));
             sunk = end_y - start_y + 1
         in and_then (sink_column g start_x start_y end_y) (\<lambda>g'. remove_ship g' sunk))
      else
        (let (start_x, end_x) = (if start_x > end_x then (end_x, start_x) else (start_x, end_x));
             sunk = end_x - start_x + 1
         in and_then (sink_row g start_x end_x start_y) (\<lambda>g'. remove_ship g' sunk)))"

text \<open>\<open>update\<close>: before the first \<open>predict\<close> the attributes \<open>pred_x\<close>, \<open>pred_y\<close> do not exist.\<close>

definition update :: "game \<Rightarrow> string \<Rightarrow> unit outcome" where
  "update g res =
     (case pred g of
        None \<Rightarrow> Raises AttributeError g
      | Some (pred_x, pred_y) \<Rightarrow>
          (case setitem2 (board g) pred_x pred_y res of
             Inl e \<Rightarrow> Raises e g
           | Inr b \<Rightarrow>
               Returns () (g\<lparr>board := b,
                             hit_mem := (if res = ''x'' then hit_mem g @ [(pred_x, pred_y)]
                                         else hit_mem g)\<rparr>)))"

subsection \<open>Auxiliary notions for the properties\<close>

text \<open>
  \<open>only_board g g'\<close>: the two objects differ at most in the board.  \<open>sink_tiles\<close> is the
  body of the two \<open>while\<close> loops of \<open>sink\<close> run over a list of tiles; \<open>span\<close> lists the
  tiles the loops of \<open>sink\<close> visit, in order, and \<open>span_length\<close> is the value of \<open>sunk\<close>.
\<close>

definition only_board :: "game \<Rightarrow> game \<Rightarrow> bool" where
  "only_board g g' = (g' = g\<lparr>board := board g'\<rparr>)"

fun sink_tiles :: "game \<Rightarrow> coord list \<Rightarrow> unit outcome" where
  "sink_tiles g [] = Returns () g"
| "sink_tiles g (t # ts) = and_then (sink_tile g (fst t) (snd t)) (\<lambda>g'. sink_tiles g' ts)"

definition span :: "int \<Rightarrow> int \<Rightarrow> int \<Rightarrow> int \<Rightarrow> coord list" where
  "span start_x start_y end_x end_y =
     (if start_x = end_x
      then map (\<lambda>y. (start_x, y)) [min start_y end_y..max start_y end_y]
      else map (\<lambda>x. (x, start_y)) [min start_x end_x..max start_x end_x])"

definition span_length :: "int \<Rightarrow> int \<Rightarrow> int \<Rightarrow> int \<Rightarrow> int" where
  "span_length start_x start_y end_x end_y =
     (if start_x = end_x then \<bar>end_y - start_y\<bar> + 1 else \<bar>end_x - start_x\<bar> + 1)"

text \<open>A board of width 4 and height 2 with two pending hits in the top row.\<close>

definition two_hits :: game where
  "two_hits =
     \<lparr>ships = [3], mode = ''t'', width = 4, height = 2,
      board = [[''x'', ''.''], [''x'', ''.''], [''.'', ''.''], [''.'', ''.'']],
      hit_mem = [(0, 0), (1, 0)], prob_map = None, pred = Some (1, 0)\<rparr>"






definition marks_grow :: "game \<Rightarrow> game \<Rightarrow> bool" where
  "marks_grow g g' =
     (\<forall>i j. case getitem2 (board g) i j of
              Inl e \<Rightarrow> getitem2 (board g') i j = Inl e
            | Inr c \<Rightarrow> getitem2 (board g') i j = Inr c \<or> getitem2 (board g') i j = Inr ''#'' \<or>
                       (getitem2 (board g') i j = Inr ''o'' \<and> c \<noteq> ''#''))"

text \<open>
  Two objects in mode \<open>"n"\<close>: a 10 x 10 board with a ship hit twice on the right edge, and a
  5 x 5 board with two pending hits in row 1.
\<close>

definition edge_game :: game where
  "edge_game =
     (new_game [2, 3] ''n'' 10 10)
       \<lparr>board := (board (new_game [2, 3] ''n'' 10 10))[9 := (replicate 10 ''.'')[0 := ''x'', 1 := ''x'']],
        hit_mem := [(9, 0), (9, 1)], pred := Some (9, 1)\<rparr>"

definition pending_pair :: game where
  "pending_pair =
     \<lparr>ships = [3, 2], mode = ''n'', width = 5, height = 5,
      board = [[''.'', ''.'', ''.'', ''.'', ''.''],
               [''.'', ''x'', ''.'', ''.'', ''.''],
               [''.'', ''x'', ''.'', ''.'', ''.''],
               [''.'', ''.'', ''.'', ''.'', ''.''],
               [''.'', ''.'', ''.'', ''.'', ''.'']],
      hit_mem = [(1, 1), (2, 1)], prob_map = None, pred = Some (2, 1)\<rparr>"

text \<open>
  A well-formed object: the board has \<open>width\<close> columns of \<open>height\<close> cells, as \<open>__init__\<close>
  builds it and every write keeps it.
\<close>

definition wf_board :: "game \<Rightarrow> bool" where
  "wf_board g =
     (0 \<le> width g \<and> 0 \<le> height g \<and> length (board g) = nat (width g) \<and>
      (\<forall>col\<in>set (board g). length col = nat (height g)))"

definition in_bounds :: "game \<Rightarrow> coord \<Rightarrow> bool" where
  "in_bounds g t = (0 \<le> fst t \<and> fst t < width g \<and> 0 \<le> snd t \<and> snd t < height g)"

text \<open>
  The specification's \<open>is_unknown\<close>: the coordinate is inside the grid and its mark is
  \<open>'.'\<close>.  \<open>is_run g tx ty dx dy n\<close>: starting next to \<open>(tx, ty)\<close> and walking in direction
  \<open>(dx, dy)\<close>, exactly the first \<open>n\<close> cells are unknown: the run stops at cell \<open>n + 1\<close>, which
  is off the grid or not unknown.
\<close>

definition is_unknown :: "game \<Rightarrow> int \<Rightarrow> int \<Rightarrow> bool" where
  "is_unknown g x y =
     (0 \<le> x \<and> x < width g \<and> 0 \<le> y \<and> y < height g \<and> board g ! nat x ! nat y = ''.'')"

definition is_run :: "game \<Rightarrow> int \<Rightarrow> int \<Rightarrow> int \<Rightarrow> int \<Rightarrow> int \<Rightarrow> bool" where
  "is_run g tx ty dx dy n =
     (0 \<le> n \<and> (\<forall>k\<in>{1..n}. is_unknown g (tx + k * dx) (ty + k * dy)) \<and>
      \<not> is_unknown g (tx + (n + 1) * dx) (ty + (n + 1) * dy))"

text \<open>
  A 10 x 10 board with the single pending hit (3,3), and one with the two pending hits
  (2,5) and (4,5).
\<close>

definition single_hit :: game where
  "single_hit =
     (new_game [5, 4, 3, 3, 2] ''n'' 10 10)
       \<lparr>board := (board (new_game [5, 4, 3, 3, 2] ''n'' 10 10))[3 := (replicate 10 ''.'')[3 := ''x'']],
        hit_mem := [(3, 3)], pred := Some (3, 3)\<rparr>"


text \<open>
  The specification of the probability map.  A placement is an orientation, a length and an
  origin; \<open>segment\<close> lists the \<open>L\<close> tiles it covers, rightwards or downwards from the
  origin.  A placement is valid when every tile it covers is unknown, so that it lies within
  the grid.  \<open>placement_count g x y\<close> counts the triples of an entry of the remaining-ship list,
  an orientation and an origin of the grid that make a valid placement covering \<open>(x, y)\<close>.
\<close>

datatype orientation = Horizontal | Vertical

definition segment :: "orientation \<Rightarrow> int \<Rightarrow> coord \<Rightarrow> coord list" where
  "segment ori L origin =
     (case ori of
        Horizontal \<Rightarrow> map (\<lambda>k. (fst origin + k, snd origin)) [0..L - 1]
      | Vertical \<Rightarrow> map (\<lambda>k. (fst origin, snd origin + k)) [0..L - 1])"

definition valid_placement :: "game \<Rightarrow> orientation \<Rightarrow> int \<Rightarrow> coord \<Rightarrow> bool" where
  "valid_placement g ori L origin =
     (\<forall>c\<in>set (segment ori L origin). is_unknown g (fst c) (snd c))"

definition grid_cells :: "game \<Rightarrow> coord list" where
  "grid_cells g = [(x, y). y \<leftarrow> [0..height g - 1], x \<leftarrow> [0..width g - 1]]"

definition placement_count :: "game \<Rightarrow> int \<Rightarrow> int \<Rightarrow> nat" where
  "placement_count g x y =
     (\<Sum>L\<leftarrow>ships g. \<Sum>ori\<leftarrow>[Horizontal, Vertical].
        length (filter (\<lambda>origin. valid_placement g ori L origin \<and>
                                  (x, y) \<in> set (segment ori L origin))
                       (grid_cells g)))"

text \<open>
  \<open>dims w h P\<close>: the array has \<open>w\<close> columns of \<open>h\<close> cells.  \<open>step_adds w h d m\<close>: on such
  an array the step \<open>m\<close> does not raise, keeps the shape and adds \<open>d a b\<close> to cell \<open>(a, b)\<close>.
\<close>

definition dims :: "nat \<Rightarrow> nat \<Rightarrow> 'a list list \<Rightarrow> bool" where
  "dims w h P = (length P = w \<and> (\<forall>col\<in>set P. length col = h))"

definition step_adds ::
  "nat \<Rightarrow> nat \<Rightarrow> (int \<Rightarrow> int \<Rightarrow> int32) \<Rightarrow> (int32 list list \<Rightarrow> error + int32 list list) \<Rightarrow> bool" where
  "step_adds w h d m =
     (\<forall>P. dims w h P \<longrightarrow>
        (\<exists>P'. m P = Inr P' \<and> dims w h P' \<and>
           (\<forall>a b. 0 \<le> a \<and> a < int w \<and> 0 \<le> b \<and> b < int h \<longrightarrow>
              P' ! nat a ! nat b = P ! nat a ! nat b + d a b)))"

definition covering :: "game \<Rightarrow> orientation \<Rightarrow> int \<Rightarrow> coord \<Rightarrow> int \<Rightarrow> int \<Rightarrow> bool" where
  "covering g ori L origin a b =
     (valid_placement g ori L origin \<and> (a, b) \<in> set (segment ori L origin))"

text \<open>
  A 1 x 1 board with \<open>2 ^ 30\<close> remaining ships of length 1, and a 3 x 2 board with a miss at
  (1,0) and two remaining ships of length 2.
\<close>

definition heavy_fleet :: game where
  "heavy_fleet = new_game (replicate (2 ^ 30) 1) ''n'' 1 1"

definition small_board :: game where
  "small_board =
     \<lparr>ships = [2, 2], mode = ''n'', width = 3, height = 2,
      board = [[''.'', ''.''], [''o'', ''.''], [''.'', ''.'']],
      hit_mem = [], prob_map = None, pred = Some (1, 0)\<rparr>"

text \<open>
  The sum of all cells of a map, read as signed numbers; the number of valid placements of a
  length, horizontal and vertical ones counted separately; the sum of a function over the
  cells of the grid.
\<close>

definition map_total :: "int32 list list \<Rightarrow> int" where
  "map_total P = (\<Sum>col\<leftarrow>P. \<Sum>v\<leftarrow>col. sint v)"

definition placements :: "game \<Rightarrow> int \<Rightarrow> nat" where
  "placements g L =
     (\<Sum>ori\<leftarrow>[Horizontal, Vertical]. length (filter (valid_placement g ori L) (grid_cells g)))"

definition grid_sum :: "game \<Rightarrow> (int \<Rightarrow> int \<Rightarrow> nat) \<Rightarrow> nat" where
  "grid_sum g f = (\<Sum>a\<leftarrow>[0..width g - 1]. \<Sum>b\<leftarrow>[0..height g - 1]. f a b)"

text \<open>A fresh 3 x 1 board with one ship of length 3.\<close>

definition narrow_board :: game where
  "narrow_board = new_game [3] ''n'' 3 1"

text \<open>
  A game as the caller drives it: a sequence of calls of \<open>predict\<close> (with the draw of the
  random source), \<open>update\<close> and \<open>sink\<close> on the object; the run stops at the first call that
  raises.
\<close>

datatype call = Predict nat | Update string | Sink int int int int

fun apply_call :: "game \<Rightarrow> call \<Rightarrow> error + game" where
  "apply_call g (Predict r) = (case predict g r of Returns u g' \<Rightarrow> Inr g' | Raises e g' \<Rightarrow> Inl e)"
| "apply_call g (Update res) = (case update g res of Returns u g' \<Rightarrow> Inr g' | Raises e g' \<Rightarrow> Inl e)"
| "apply_call g (Sink sx sy ex ey) =
     (case sink g sx sy ex ey of Returns over g' \<Rightarrow> Inr g' | Raises e g' \<Rightarrow> Inl e)"

fun run_calls :: "game \<Rightarrow> call list \<Rightarrow> error + game" where
  "run_calls g [] = Inr g"
| "run_calls g (c # cs) = ebind (apply_call g c) (\<lambda>g'. run_calls g' cs)"

text \<open>
  Four turns on a 4 x 2 board on which two ships of length 2 stand upright side by side in
  columns 1 and 2 (touching is allowed): hit at (1,0), hit at (2,0), miss at (3,0), miss at
  (0,0); every answer is truthful.
\<close>

definition side_by_side :: "call list" where
  "side_by_side =
     [Predict 0, Update ''x'', Predict 0, Update ''x'',
      Predict 0, Update ''o'', Predict 0, Update ''o'']"




definition hits_marked_except :: "game \<Rightarrow> coord list \<Rightarrow> bool" where
  "hits_marked_except g ts =
     (wf_board g \<and> distinct (hit_mem g) \<and>
      (\<forall>t\<in>set (hit_mem g).
         in_bounds g t \<and> (t \<in> set ts \<or> board g ! nat (fst t) ! nat (snd t) = ''x'')))"

definition hits_marked :: "game \<Rightarrow> bool" where
  "hits_marked g = hits_marked_except g []"




section \<open>Properties\<close>

subsection \<open>Reading and writing cells\<close>

lemma norm_index_Inr: "norm_index n i = Inr k \<Longrightarrow> k < n"
  by (auto simp: norm_index_def Let_def split: if_splits)

lemma getitem2_unfold:
  "getitem2 b i j =
     (case norm_index (length b) i of Inl e \<Rightarrow> Inl e
      | Inr k \<Rightarrow> (case norm_index (length (b ! k)) j of Inl e \<Rightarrow> Inl e | Inr l \<Rightarrow> Inr (b ! k ! l)))"
  by (auto simp: getitem2_def getitem_def split: sum.splits)

lemma setitem2_unfold:
  "setitem2 b i j v =
     (case norm_index (length b) i of Inl e \<Rightarrow> Inl e
      | Inr k \<Rightarrow> (case norm_index (length (b ! k)) j of Inl e \<Rightarrow> Inl e
                   | Inr l \<Rightarrow> Inr (b[k := (b ! k)[l := v]])))"
  by (auto simp: setitem2_def getitem_def setitem_def split: sum.splits)

lemma setitem2_InrD:
  assumes "setitem2 b i j v = Inr b'"
  obtains k l where "norm_index (length b) i = Inr k" "norm_index (length (b ! k)) j = Inr l"
    "k < length b" "l < length (b ! k)" "b' = b[k := (b ! k)[l := v]]"
  using assms by (auto simp: setitem2_unfold split: sum.splits dest: norm_index_Inr)

lemma setitem2_same:
  assumes "setitem2 b i j v = Inr b'"
  shows "getitem2 b' i j = Inr v"
proof -
  from assms obtain k l where kl: "norm_index (length b) i = Inr k"
    "norm_index (length (b ! k)) j = Inr l" "k < length b" "l < length (b ! k)"
    "b' = b[k := (b ! k)[l := v]]"
    by (rule setitem2_InrD)
  then show ?thesis by (simp add: getitem2_unfold)
qed



subsection \<open>The loops of \<open>sink\<close>\<close>

declare sink_column.simps [simp del] sink_row.simps [simp del]

lemma only_board_refl: "only_board g g"
  by (simp add: only_board_def)

lemma only_board_trans: "only_board g g1 \<Longrightarrow> only_board g1 g2 \<Longrightarrow> only_board g g2"
  unfolding only_board_def
  by (cases g, cases g1, cases g2) simp

lemma only_board_update: "only_board g (g\<lparr>board := b\<rparr>)"
  by (simp add: only_board_def)

lemma only_board_fields:
  assumes "only_board g g'"
  shows "ships g' = ships g" "mode g' = mode g" "width g' = width g" "height g' = height g"
    "hit_mem g' = hit_mem g" "pred g' = pred g" "prob_map g' = prob_map g"
  using assms unfolding only_board_def by (cases g, cases g', simp)+

lemma clear_tile_only_board: "only_board g (state_of (clear_tile g x y))"
  by (auto simp: clear_tile_def only_board_refl only_board_update split: sum.splits)

lemma and_then_only_board:
  assumes "only_board g (state_of m)"
    and "\<And>g1. only_board g g1 \<Longrightarrow> only_board g1 (state_of (f g1))"
  shows "only_board g (state_of (and_then m f))"
  using assms by (cases m) (auto intro: only_board_trans)

lemma clear_edges_only_board: "only_board g (state_of (clear_edges g x y))"
  unfolding clear_edges_def
  by (intro and_then_only_board clear_tile_only_board)

text \<open>What \<open>sink_tile\<close> leaves unchanged.\<close>

lemma sink_tile_frame:
  "ships (state_of (sink_tile g x y)) = ships g"
  "mode (state_of (sink_tile g x y)) = mode g"
  "width (state_of (sink_tile g x y)) = width g"
  "height (state_of (sink_tile g x y)) = height g"
  "pred (state_of (sink_tile g x y)) = pred g"
  using only_board_fields [OF clear_edges_only_board]
  by (auto simp: sink_tile_def Let_def split: sum.splits)

lemma sink_tiles_frame:
  "ships (state_of (sink_tiles g ts)) = ships g \<and>
   mode (state_of (sink_tiles g ts)) = mode g \<and>
   width (state_of (sink_tiles g ts)) = width g \<and>
   height (state_of (sink_tiles g ts)) = height g \<and>
   pred (state_of (sink_tiles g ts)) = pred g"
proof (induction ts arbitrary: g)
  case Nil
  show ?case by simp
next
  case (Cons t ts)
  show ?case
  proof (cases "sink_tile g (fst t) (snd t)")
    case (Returns u g1)
    with Cons [of g1] sink_tile_frame [of g "fst t" "snd t"] show ?thesis by simp
  next
    case (Raises e g1)
    with sink_tile_frame [of g "fst t" "snd t"] show ?thesis by simp
  qed
qed

lemma sink_column_tiles:
  "sink_column g x y e = sink_tiles g (map (\<lambda>j. (x, j)) [y..e])"
proof (induction g x y e rule: sink_column.induct)
  case (1 g x y e)
  show ?case
  proof (cases "y \<le> e")
    case True
    then have "[y..e] = y # [y + 1..e]" by (simp add: upto_rec1)
    with True 1 show ?thesis
      by (cases "sink_tile g x y") (simp_all add: sink_column.simps [of g x y e])
  next
    case False
    then show ?thesis by (simp add: sink_column.simps [of g x y e])
  qed
qed

lemma sink_row_tiles:
  "sink_row g x e y = sink_tiles g (map (\<lambda>i. (i, y)) [x..e])"
proof (induction g x e y rule: sink_row.induct)
  case (1 g x e y)
  show ?case
  proof (cases "x \<le> e")
    case True
    then have "[x..e] = x # [x + 1..e]" by (simp add: upto_rec1)
    with True 1 show ?thesis
      by (cases "sink_tile g x y") (simp_all add: sink_row.simps [of g x e y])
  next
    case False
    then show ?thesis by (simp add: sink_row.simps [of g x e y])
  qed
qed

lemma length_span: "int (length (span sx sy ex ey)) = span_length sx sy ex ey"
  by (auto simp: span_def span_length_def min_def max_def)

lemma sink_as_tiles:
  "sink g sx sy ex ey =
     and_then (sink_tiles g (span sx sy ex ey)) (\<lambda>g'. remove_ship g' (span_length sx sy ex ey))"
  by (auto simp: sink_def span_def span_length_def sink_column_tiles sink_row_tiles min_def max_def Let_def)

lemma del_first_remove1: "del_first v xs = remove1 v xs"
  by (induction xs) auto

lemma sink_ships:
  "ships (state_of (sink g sx sy ex ey)) =
     (case sink g sx sy ex ey of
        Returns over g' \<Rightarrow> remove1 (span_length sx sy ex ey) (ships g)
      | Raises e g' \<Rightarrow> ships g)"
  using sink_tiles_frame [of g "span sx sy ex ey"]
  by (cases "sink_tiles g (span sx sy ex ey)")
     (simp_all add: sink_as_tiles remove_ship_def del_first_remove1)

text \<open>
  Claim C6, as the code has it.  A call of \<open>sink\<close> that returns has removed from the
  remaining-ship list the first entry equal to the length of the span, exactly one entry
  when there is one; when no remaining ship has that length the list is left as it was and
  nothing is signalled.  The value returned is true iff the list is empty afterwards.
\<close>

theorem sink_removes_first_match:
  assumes "sink g sx sy ex ey = Returns over g'"
  shows "(span_length sx sy ex ey \<in> set (ships g) \<longrightarrow>
            mset (ships g') + {#span_length sx sy ex ey#} = mset (ships g)) \<and>
         (span_length sx sy ex ey \<notin> set (ships g) \<longrightarrow> ships g' = ships g) \<and>
         ships g' = remove1 (span_length sx sy ex ey) (ships g) \<and>
         (over \<longleftrightarrow> ships g' = [])"
proof -
  from assms obtain g1 where g1: "sink_tiles g (span sx sy ex ey) = Returns () g1"
    and r: "remove_ship g1 (span_length sx sy ex ey) = Returns over g'"
    by (cases "sink_tiles g (span sx sy ex ey)") (auto simp: sink_as_tiles)
  from sink_tiles_frame [of g "span sx sy ex ey"] g1 have "ships g1 = ships g" by simp
  with r have s: "ships g' = remove1 (span_length sx sy ex ey) (ships g)"
    and o: "over \<longleftrightarrow> ships g' = []"
    by (auto simp: remove_ship_def del_first_remove1)
  from s o show ?thesis by (auto simp: remove1_idem)
qed

lemma two_hits_sink:
  "sink two_hits 0 0 1 0 =
     Returns False (two_hits\<lparr>board := [[''#'', ''.''], [''#'', ''.''], [''.'', ''.''], [''.'', ''.'']],
                              hit_mem := []\<rparr>)"
  by (simp add: sink_as_tiles span_def span_length_def sink_tile_def setitem2_unfold norm_index_def
      two_hits_def remove_ship_def upto_rec1)

text \<open>
  Claim C6 as stated fails: with the only remaining ship of length 3, the sink of a span of
  length 2 returns normally, answers False and leaves the list unchanged.
\<close>

theorem sink_unmatched_length_silent:
  "span_length 0 0 1 0 \<notin> set (ships two_hits) \<and>
   (case sink two_hits 0 0 1 0 of
      Returns over g' \<Rightarrow> \<not> over \<and> ships g' = ships two_hits
    | Raises e g' \<Rightarrow> False)"
  by (simp add: two_hits_sink) (simp add: two_hits_def span_length_def)

text \<open>The hypothesis of \<open>sink_removes_first_match\<close> holds at that call.\<close>

theorem sink_removes_first_match_witness:
  "sink two_hits 0 0 1 0 = Returns False (state_of (sink two_hits 0 0 1 0)) \<and>
   span_length 0 0 1 0 \<notin> set (ships two_hits) \<and>
   ships (state_of (sink two_hits 0 0 1 0)) = ships two_hits"
  using sink_removes_first_match [of two_hits 0 0 1 0 False "state_of (sink two_hits 0 0 1 0)"]
  by (simp add: two_hits_sink)

text \<open>
  Claim C7, as the code has it.  When the two endpoints differ in x, \<open>sink\<close> takes the
  left-to-right branch and never reads \<open>end_y\<close>: the call does exactly what the call with
  \<open>end_y = start_y\<close> does, so endpoints that share neither coordinate are handled as the
  horizontal span in the row of the first endpoint.
\<close>

theorem sink_ignores_end_y:
  "start_x \<noteq> end_x \<Longrightarrow> sink g start_x start_y end_x end_y = sink g start_x start_y end_x start_y"
  by (simp add: sink_def)

theorem sink_ignores_end_y_witness:
  "(0::int) \<noteq> 1 \<and> sink two_hits 0 0 1 1 = sink two_hits 0 0 1 0"
  using sink_ignores_end_y [of 0 1 two_hits 0 1] by simp

text \<open>
  Claim C7 as stated fails: the endpoints (0,0) and (1,1) share neither coordinate, and the
  call returns normally after sinking (0,0) and (1,0).
\<close>

theorem sink_diagonal_silent:
  "(0::int) \<noteq> 1 \<and> (0::int) \<noteq> 1 \<and>
   sink two_hits 0 0 1 1 =
     Returns False (two_hits\<lparr>board := [[''#'', ''.''], [''#'', ''.''], [''.'', ''.''], [''.'', ''.'']],
                              hit_mem := []\<rparr>)"
  by (simp add: sink_as_tiles span_def span_length_def sink_tile_def setitem2_unfold norm_index_def
      two_hits_def remove_ship_def upto_rec1)

subsection \<open>Marks only grow under \<open>_clear_tile\<close> and \<open>sink\<close>\<close>


lemma marks_grow_same_board: "board g' = board g \<Longrightarrow> marks_grow g g'"
  by (simp add: marks_grow_def split: sum.splits)







lemma setitem2_undefined:
  "getitem2 b i j = Inl e \<Longrightarrow> setitem2 b i j v = Inl e"
  by (auto simp: getitem2_unfold setitem2_unfold split: sum.splits)















text \<open>Inside the board \<open>_clear_tile\<close> does what claim C5 says.\<close>

lemma clear_tile_in_bounds:
  assumes "0 \<le> x" "x < int (length (board g))" "0 \<le> y" "y < int (length (board g ! nat x))"
  shows "clear_tile g x y =
           (if board g ! nat x ! nat y = ''#'' then Returns () g
            else Returns () (g\<lparr>board := (board g)[nat x := (board g ! nat x)[nat y := ''o'']]\<rparr>))"
  using assms by (simp add: clear_tile_def getitem2_unfold setitem2_unfold norm_index_def)

text \<open>
  Claim C5 fails on the code at the edge of the board.  \<open>_clear_tile\<close> has no bounds test:
  on a fresh 10 x 10 board the coordinate (10, 0) raises IndexError, and (-1, 0) is Python's
  last column, so the unknown cell (9, 0) is overwritten with a miss.  \<open>sink\<close> of a ship on
  the right edge in mode \<open>"n"\<close> therefore raises IndexError after its first tile.
\<close>

theorem clear_tile_out_of_bounds:
  "clear_tile (new_game [2, 3] ''n'' 10 10) 10 0 = Raises IndexError (new_game [2, 3] ''n'' 10 10) \<and>
   getitem2 (board (new_game [2, 3] ''n'' 10 10)) 9 0 = Inr ''.'' \<and>
   (case clear_tile (new_game [2, 3] ''n'' 10 10) (- 1) 0 of
      Returns u g' \<Rightarrow> getitem2 (board g') 9 0 = Inr ''o''
    | Raises e g' \<Rightarrow> False) \<and>
   (case sink edge_game 9 0 9 1 of
      Returns over g' \<Rightarrow> False
    | Raises e g' \<Rightarrow> e = IndexError \<and> getitem2 (board g') 9 0 = Inr ''#'' \<and>
        hit_mem g' = [(9, 1)] \<and> ships g' = [2, 3])"
  by (simp add: sink_as_tiles span_def sink_tile_def clear_edges_def clear_tile_def
        getitem2_unfold setitem2_unfold norm_index_def edge_game_def new_game_def upto_rec1)

lemma pending_pair_sink:
  "sink pending_pair 1 1 3 1 =
     Raises ValueError (pending_pair
       \<lparr>board := [[''o'', ''o'', ''o'', ''.'', ''.''],
                  [''o'', ''#'', ''o'', ''.'', ''.''],
                  [''o'', ''#'', ''o'', ''.'', ''.''],
                  [''o'', ''#'', ''o'', ''.'', ''.''],
                  [''.'', ''.'', ''.'', ''.'', ''.'']],
        hit_mem := []\<rparr>)"
  by (simp add: sink_as_tiles span_def sink_tile_def clear_edges_def clear_tile_def
        getitem2_unfold setitem2_unfold norm_index_def pending_pair_def upto_rec1)



subsection \<open>The hit map\<close>

lemma getitem2_wf:
  assumes "wf_board g" "0 \<le> x" "x < width g" "0 \<le> y" "y < height g"
  shows "getitem2 (board g) x y = Inr (board g ! nat x ! nat y)"
proof -
  from assms have "nat x < length (board g)" by (simp add: wf_board_def)
  then have "board g ! nat x \<in> set (board g)" by simp
  with assms have "length (board g ! nat x) = nat (height g)" by (simp add: wf_board_def)
  with assms show ?thesis by (simp add: getitem2_unfold norm_index_def wf_board_def)
qed

lemma count_run_takeWhile:
  assumes "\<forall>loc\<in>set locs. cell loc = Inr (c loc)"
  shows "count_run cell locs n = Inr (n + int (length (takeWhile (\<lambda>l. c l = ''.'') locs)))"
  using assms by (induction locs arbitrary: n) auto

lemma takeWhile_run:
  assumes "\<And>i. i < length locs \<Longrightarrow> unk (int i + 1) = P (locs ! i)"
    and "\<not> unk (int (length locs) + 1)"
  shows "(\<forall>k\<in>{1..int (length (takeWhile P locs))}. unk k) \<and>
         \<not> unk (int (length (takeWhile P locs)) + 1)"
proof
  let ?n = "length (takeWhile P locs)"
  have le: "?n \<le> length locs" by (rule length_takeWhile_le)
  show "\<forall>k\<in>{1..int ?n}. unk k"
  proof
    fix k assume k: "k \<in> {1..int ?n}"
    then have i: "nat (k - 1) < ?n" by auto
    then have "P (takeWhile P locs ! nat (k - 1))" by (metis nth_mem set_takeWhileD)
    with i have "P (locs ! nat (k - 1))" by (simp add: takeWhile_nth)
    moreover from i le have "nat (k - 1) < length locs" by simp
    ultimately have "unk (int (nat (k - 1)) + 1)" using assms(1) [of "nat (k - 1)"] by blast
    moreover from k have "int (nat (k - 1)) + 1 = k" by simp
    ultimately show "unk k" by simp
  qed
  show "\<not> unk (int ?n + 1)"
  proof (cases "?n < length locs")
    case True
    then have "\<not> P (locs ! ?n)" by (rule nth_length_takeWhile)
    with True assms(1) show ?thesis by simp
  next
    case False
    with le have "?n = length locs" by simp
    with assms(2) show ?thesis by simp
  qed
qed

lemma is_run_unique:
  assumes "is_run g tx ty dx dy n" "is_run g tx ty dx dy m"
  shows "n = m"
proof (rule ccontr)
  assume "n \<noteq> m"
  then consider "n < m" | "m < n" by linarith
  then show False
  proof cases
    case 1
    with assms(1) have "n + 1 \<in> {1..m}" by (simp add: is_run_def)
    with assms show False unfolding is_run_def by blast
  next
    case 2
    with assms(2) have "m + 1 \<in> {1..n}" by (simp add: is_run_def)
    with assms show False unfolding is_run_def by blast
  qed
qed

lemma run_right:
  assumes "wf_board g" "0 \<le> tx" "tx < width g" "0 \<le> ty" "ty < height g"
  shows "\<exists>r. count_run (\<lambda>loc. getitem2 (board g) loc ty) (py_range (tx + 1) (width g)) 0 = Inr r \<and>
           is_run g tx ty 1 0 r"
proof -
  let ?locs = "py_range (tx + 1) (width g)"
  let ?P = "\<lambda>l. board g ! nat l ! nat ty = ''.''"
  let ?r = "int (length (takeWhile ?P ?locs))"
  have len: "int (length ?locs) = width g - 1 - tx" using assms by (simp add: py_range_def)
  have nth: "\<And>i. i < length ?locs \<Longrightarrow> ?locs ! i = tx + 1 + int i"
    using len by (simp add: py_range_def nth_upto)
  have "\<forall>loc\<in>set ?locs. getitem2 (board g) loc ty = Inr (board g ! nat loc ! nat ty)"
    using assms by (auto simp: py_range_def intro!: getitem2_wf)
  then have c: "count_run (\<lambda>loc. getitem2 (board g) loc ty) ?locs 0 = Inr (0 + ?r)"
    by (rule count_run_takeWhile)
  have u: "\<And>i. i < length ?locs \<Longrightarrow>
      is_unknown g (tx + (int i + 1) * 1) (ty + (int i + 1) * 0) = ?P (?locs ! i)"
    using assms len nth by (auto simp: is_unknown_def add.commute add.left_commute)
  have e: "\<not> is_unknown g (tx + (int (length ?locs) + 1) * 1) (ty + (int (length ?locs) + 1) * 0)"
    using len by (simp add: is_unknown_def)
  from takeWhile_run [of ?locs "\<lambda>k. is_unknown g (tx + k * 1) (ty + k * 0)" ?P, OF u e]
  have "is_run g tx ty 1 0 ?r" by (simp add: is_run_def)
  with c show ?thesis by simp
qed

lemma run_left:
  assumes "wf_board g" "0 \<le> tx" "tx < width g" "0 \<le> ty" "ty < height g"
  shows "\<exists>r. count_run (\<lambda>loc. getitem2 (board g) loc ty) (rev (py_range 0 tx)) 0 = Inr r \<and>
           is_run g tx ty (- 1) 0 r"
proof -
  let ?locs = "rev (py_range 0 tx)"
  let ?P = "\<lambda>l. board g ! nat l ! nat ty = ''.''"
  let ?r = "int (length (takeWhile ?P ?locs))"
  have len: "int (length ?locs) = tx" using assms by (simp add: py_range_def)
  have nth: "\<And>i. i < length ?locs \<Longrightarrow> ?locs ! i = tx - 1 - int i"
  proof -
    fix i assume i: "i < length ?locs"
    with len have "?locs ! i = [0..tx - 1] ! (nat tx - Suc i)"
      by (simp add: py_range_def rev_nth)
    also from i len have "\<dots> = 0 + int (nat tx - Suc i)"
      by (intro nth_upto) auto
    also from i len have "\<dots> = tx - 1 - int i" by auto
    finally show "?locs ! i = tx - 1 - int i" .
  qed
  have "\<forall>loc\<in>set ?locs. getitem2 (board g) loc ty = Inr (board g ! nat loc ! nat ty)"
    using assms by (auto simp: py_range_def intro!: getitem2_wf)
  then have c: "count_run (\<lambda>loc. getitem2 (board g) loc ty) ?locs 0 = Inr (0 + ?r)"
    by (rule count_run_takeWhile)
  have u: "\<And>i. i < length ?locs \<Longrightarrow>
      is_unknown g (tx + (int i + 1) * (- 1)) (ty + (int i + 1) * 0) = ?P (?locs ! i)"
  proof -
    fix i assume i: "i < length ?locs"
    have eq: "tx + (int i + 1) * (- 1) = tx - 1 - int i" by simp
    from i len assms have "0 \<le> tx - 1 - int i" "tx - 1 - int i < width g" by auto
    then show "is_unknown g (tx + (int i + 1) * (- 1)) (ty + (int i + 1) * 0) = ?P (?locs ! i)"
      unfolding eq using assms nth [OF i] by (simp add: is_unknown_def)
  qed
  have e: "\<not> is_unknown g (tx + (int (length ?locs) + 1) * (- 1)) (ty + (int (length ?locs) + 1) * 0)"
    using len by (simp add: is_unknown_def)
  from takeWhile_run [of ?locs "\<lambda>k. is_unknown g (tx + k * (- 1)) (ty + k * 0)" ?P, OF u e]
  have "is_run g tx ty (- 1) 0 ?r" by (simp add: is_run_def)
  with c show ?thesis by simp
qed

lemma run_down:
  assumes "wf_board g" "0 \<le> tx" "tx < width g" "0 \<le> ty" "ty < height g"
  shows "\<exists>r. count_run (\<lambda>loc. getitem2 (board g) tx loc) (py_range (ty + 1) (height g)) 0 = Inr r \<and>
           is_run g tx ty 0 1 r"
proof -
  let ?locs = "py_range (ty + 1) (height g)"
  let ?P = "\<lambda>l. board g ! nat tx ! nat l = ''.''"
  let ?r = "int (length (takeWhile ?P ?locs))"
  have len: "int (length ?locs) = height g - 1 - ty" using assms by (simp add: py_range_def)
  have nth: "\<And>i. i < length ?locs \<Longrightarrow> ?locs ! i = ty + 1 + int i"
    using len by (simp add: py_range_def nth_upto)
  have "\<forall>loc\<in>set ?locs. getitem2 (board g) tx loc = Inr (board g ! nat tx ! nat loc)"
    using assms by (auto simp: py_range_def intro!: getitem2_wf)
  then have c: "count_run (\<lambda>loc. getitem2 (board g) tx loc) ?locs 0 = Inr (0 + ?r)"
    by (rule count_run_takeWhile)
  have u: "\<And>i. i < length ?locs \<Longrightarrow>
      is_unknown g (tx + (int i + 1) * 0) (ty + (int i + 1) * 1) = ?P (?locs ! i)"
    using assms len nth by (auto simp: is_unknown_def add.commute add.left_commute)
  have e: "\<not> is_unknown g (tx + (int (length ?locs) + 1) * 0) (ty + (int (length ?locs) + 1) * 1)"
    using len by (simp add: is_unknown_def)
  from takeWhile_run [of ?locs "\<lambda>k. is_unknown g (tx + k * 0) (ty + k * 1)" ?P, OF u e]
  have "is_run g tx ty 0 1 ?r" by (simp add: is_run_def)
  with c show ?thesis by simp
qed

lemma run_up:
  assumes "wf_board g" "0 \<le> tx" "tx < width g" "0 \<le> ty" "ty < height g"
  shows "\<exists>r. count_run (\<lambda>loc. getitem2 (board g) tx loc) (rev (py_range 0 ty)) 0 = Inr r \<and>
           is_run g tx ty 0 (- 1) r"
proof -
  let ?locs = "rev (py_range 0 ty)"
  let ?P = "\<lambda>l. board g ! nat tx ! nat l = ''.''"
  let ?r = "int (length (takeWhile ?P ?locs))"
  have len: "int (length ?locs) = ty" using assms by (simp add: py_range_def)
  have nth: "\<And>i. i < length ?locs \<Longrightarrow> ?locs ! i = ty - 1 - int i"
  proof -
    fix i assume i: "i < length ?locs"
    with len have "?locs ! i = [0..ty - 1] ! (nat ty - Suc i)"
      by (simp add: py_range_def rev_nth)
    also from i len have "\<dots> = 0 + int (nat ty - Suc i)"
      by (intro nth_upto) auto
    also from i len have "\<dots> = ty - 1 - int i" by auto
    finally show "?locs ! i = ty - 1 - int i" .
  qed
  have "\<forall>loc\<in>set ?locs. getitem2 (board g) tx loc = Inr (board g ! nat tx ! nat loc)"
    using assms by (auto simp: py_range_def intro!: getitem2_wf)
  then have c: "count_run (\<lambda>loc. getitem2 (board g) tx loc) ?locs 0 = Inr (0 + ?r)"
    by (rule count_run_takeWhile)
  have u: "\<And>i. i < length ?locs \<Longrightarrow>
      is_unknown g (tx + (int i + 1) * 0) (ty + (int i + 1) * (- 1)) = ?P (?locs ! i)"
  proof -
    fix i assume i: "i < length ?locs"
    have eq: "ty + (int i + 1) * (- 1) = ty - 1 - int i" by simp
    from i len assms have "0 \<le> ty - 1 - int i" "ty - 1 - int i < height g" by auto
    then show "is_unknown g (tx + (int i + 1) * 0) (ty + (int i + 1) * (- 1)) = ?P (?locs ! i)"
      unfolding eq using assms nth [OF i] by (simp add: is_unknown_def)
  qed
  have e: "\<not> is_unknown g (tx + (int (length ?locs) + 1) * 0) (ty + (int (length ?locs) + 1) * (- 1))"
    using len by (simp add: is_unknown_def)
  from takeWhile_run [of ?locs "\<lambda>k. is_unknown g (tx + k * 0) (ty + k * (- 1))" ?P, OF u e]
  have "is_run g tx ty 0 (- 1) ?r" by (simp add: is_run_def)
  with c show ?thesis by simp
qed

lemma py_dict_four:
  "py_dict [((tx + 1, ty), a), ((tx - 1, ty), b), ((tx, ty + 1), c), ((tx, ty - 1), d)] =
     [((tx + 1, ty), a), ((tx - 1, ty), b), ((tx, ty + 1), c), ((tx, ty - 1), d :: int)]"
  for tx ty :: int
  by (simp add: py_dict_def)

lemma gen_hit_map_runs:
  assumes "wf_board g" "0 \<le> tx" "tx < width g" "0 \<le> ty" "ty < height g"
  shows "\<exists>right left down up.
           gen_hit_map g tx ty =
             Inr [((tx + 1, ty), right), ((tx - 1, ty), left),
                  ((tx, ty + 1), down), ((tx, ty - 1), up)] \<and>
           is_run g tx ty 1 0 right \<and> is_run g tx ty (- 1) 0 left \<and>
           is_run g tx ty 0 1 down \<and> is_run g tx ty 0 (- 1) up"
proof -
  from run_right [OF assms] obtain r where r:
    "count_run (\<lambda>loc. getitem2 (board g) loc ty) (py_range (tx + 1) (width g)) 0 = Inr r"
    "is_run g tx ty 1 0 r" by blast
  from run_left [OF assms] obtain l where l:
    "count_run (\<lambda>loc. getitem2 (board g) loc ty) (rev (py_range 0 tx)) 0 = Inr l"
    "is_run g tx ty (- 1) 0 l" by blast
  from run_down [OF assms] obtain d where d:
    "count_run (\<lambda>loc. getitem2 (board g) tx loc) (py_range (ty + 1) (height g)) 0 = Inr d"
    "is_run g tx ty 0 1 d" by blast
  from run_up [OF assms] obtain u where u:
    "count_run (\<lambda>loc. getitem2 (board g) tx loc) (rev (py_range 0 ty)) 0 = Inr u"
    "is_run g tx ty 0 (- 1) u" by blast
  have "gen_hit_map g tx ty =
      Inr [((tx + 1, ty), r), ((tx - 1, ty), l), ((tx, ty + 1), d), ((tx, ty - 1), u)]"
    by (simp only: gen_hit_map_def r(1) l(1) d(1) u(1) ebind.simps py_dict_four)
  with r(2) l(2) d(2) u(2) show ?thesis by blast
qed

lemma single_hit_map:
  "gen_hit_map single_hit 3 3 = Inr [((4, 3), 6), ((2, 3), 3), ((3, 4), 6), ((3, 2), 3)]"
  by (simp add: gen_hit_map_def py_range_def upto_rec1 getitem2_unfold norm_index_def
        single_hit_def new_game_def py_dict_def)

lemma wf_board_lengths:
  "wf_board g \<longleftrightarrow>
     0 \<le> width g \<and> 0 \<le> height g \<and> map length (board g) = replicate (nat (width g)) (nat (height g))"
proof
  assume w: "wf_board g"
  then have "map length (board g) = replicate (nat (width g)) (nat (height g))"
    by (intro replicate_eqI) (auto simp: wf_board_def)
  with w show "0 \<le> width g \<and> 0 \<le> height g \<and>
      map length (board g) = replicate (nat (width g)) (nat (height g))"
    by (simp add: wf_board_def)
next
  assume a: "0 \<le> width g \<and> 0 \<le> height g \<and>
      map length (board g) = replicate (nat (width g)) (nat (height g))"
  then have "length (map length (board g)) = nat (width g)" by simp
  then have l: "length (board g) = nat (width g)" by simp
  have "\<forall>col\<in>set (board g). length col = nat (height g)"
  proof
    fix col assume "col \<in> set (board g)"
    then have "length col \<in> set (map length (board g))" by simp
    with a show "length col = nat (height g)" by simp
  qed
  with a l show "wf_board g" by (simp add: wf_board_def)
qed

lemma wf_new_game: "0 \<le> w \<Longrightarrow> 0 \<le> h \<Longrightarrow> wf_board (new_game ss m w h)"
  by (simp add: wf_board_def new_game_def)


lemma wf_single_hit: "wf_board single_hit"
  by (simp add: wf_board_lengths single_hit_def new_game_def map_update list_update_same_conv)

text \<open>
  Claim C2.  On a well-formed board and for a coordinate inside the grid, \<open>_gen_hit_map\<close>
  returns a dict whose keys are exactly the four adjacent coordinates, in the order right,
  left, down, up and whether or not they lie on the grid, and the value of each key is the
  length of the run of unknown cells in that direction.  For the single hit at (3,3) on an
  otherwise empty 10 x 10 board the values are right 6, left 3, down 6, up 3.
\<close>

theorem gen_hit_map_correct:
  assumes "wf_board g" "0 \<le> tx" "tx < width g" "0 \<le> ty" "ty < height g"
  shows "(\<exists>right left down up.
            gen_hit_map g tx ty =
              Inr [((tx + 1, ty), right), ((tx - 1, ty), left),
                   ((tx, ty + 1), down), ((tx, ty - 1), up)] \<and>
            is_run g tx ty 1 0 right \<and> is_run g tx ty (- 1) 0 left \<and>
            is_run g tx ty 0 1 down \<and> is_run g tx ty 0 (- 1) up) \<and>
         gen_hit_map single_hit 3 3 = Inr [((4, 3), 6), ((2, 3), 3), ((3, 4), 6), ((3, 2), 3)]"
  using gen_hit_map_runs [OF assms] single_hit_map by blast

text \<open>The hypotheses of \<open>gen_hit_map_correct\<close> hold at that hit, with those run lengths.\<close>

theorem gen_hit_map_correct_witness:
  "wf_board single_hit \<and> (0::int) \<le> 3 \<and> 3 < width single_hit \<and> 3 < height single_hit \<and>
   gen_hit_map single_hit 3 3 = Inr [((4, 3), 6), ((2, 3), 3), ((3, 4), 6), ((3, 2), 3)] \<and>
   is_run single_hit 3 3 1 0 6 \<and> is_run single_hit 3 3 (- 1) 0 3 \<and>
   is_run single_hit 3 3 0 1 6 \<and> is_run single_hit 3 3 0 (- 1) 3"
proof -
  have b: "(0::int) \<le> 3" "3 < width single_hit" "3 < height single_hit"
    by (simp_all add: single_hit_def new_game_def)
  from gen_hit_map_correct [OF wf_single_hit b(1) b(2) b(1) b(3)] wf_single_hit b
  show ?thesis by auto
qed

lemma sorted_extremes:
  assumes "sorted (map f ys)" "ys \<noteq> []"
  shows "\<forall>t\<in>set ys. f (ys ! 0) \<le> f t \<and> f t \<le> f (last ys)"
  using assms
proof (induction ys)
  case Nil
  then show ?case by simp
next
  case (Cons y ys)
  show ?case
  proof (cases "ys = []")
    case True
    then show ?thesis by simp
  next
    case False
    with Cons have ih: "\<forall>t\<in>set ys. f t \<le> f (last ys)" by simp
    from False have "last ys \<in> set ys" by (rule last_in_set)
    with Cons.prems(1) have "f y \<le> f (last ys)" by simp
    with ih Cons.prems(1) False show ?thesis by auto
  qed
qed

lemma sorted_key_extremes:
  assumes "xs \<noteq> []"
  shows "last (sort_key f xs) \<in> set xs" "sort_key f xs ! 0 \<in> set xs"
    "\<forall>t\<in>set xs. f (sort_key f xs ! 0) \<le> f t \<and> f t \<le> f (last (sort_key f xs))"
proof -
  let ?ys = "sort_key f xs"
  from assms have ne: "?ys \<noteq> []" by (metis length_0_conv length_sort)
  then have "last ?ys \<in> set ?ys" by (rule last_in_set)
  then show "last ?ys \<in> set xs" by simp
  from ne have "0 < length ?ys" by (simp del: length_sort)
  then have "?ys ! 0 \<in> set ?ys" by (rule nth_mem)
  then show "?ys ! 0 \<in> set xs" by simp
  have "sorted (map f ?ys)" by (rule sorted_sort_key)
  from sorted_extremes [OF this ne]
  show "\<forall>t\<in>set xs. f (?ys ! 0) \<le> f t \<and> f t \<le> f (last ?ys)" by simp
qed

lemma is_run_hit_mem [simp]: "is_run (g\<lparr>hit_mem := h\<rparr>) = is_run g"
  by (intro ext) (simp add: is_run_def is_unknown_def)

lemma wf_board_hit_mem [simp]: "wf_board (g\<lparr>hit_mem := h\<rparr>) = wf_board g"
  by (simp add: wf_board_def)

lemma py_dict_two: "k1 \<noteq> k2 \<Longrightarrow> py_dict [(k1, v1), (k2, v2)] = [(k1, v1), (k2, v2)]"
  by (simp add: py_dict_def)

lemma hit_score:
  assumes "wf_board g" "in_bounds g t"
  shows "\<exists>v. ebind (gen_hit_map g (fst t) (snd t)) (\<lambda>d. dict_get d (fst t + 1, snd t)) = Inr v \<and>
             is_run g (fst t) (snd t) 1 0 v"
    and "\<exists>v. ebind (gen_hit_map g (fst t) (snd t)) (\<lambda>d. dict_get d (fst t - 1, snd t)) = Inr v \<and>
             is_run g (fst t) (snd t) (- 1) 0 v"
    and "\<exists>v. ebind (gen_hit_map g (fst t) (snd t)) (\<lambda>d. dict_get d (fst t, snd t + 1)) = Inr v \<and>
             is_run g (fst t) (snd t) 0 1 v"
    and "\<exists>v. ebind (gen_hit_map g (fst t) (snd t)) (\<lambda>d. dict_get d (fst t, snd t - 1)) = Inr v \<and>
             is_run g (fst t) (snd t) 0 (- 1) v"
proof -
  from assms(2) have b: "0 \<le> fst t" "fst t < width g" "0 \<le> snd t" "snd t < height g"
    by (simp_all add: in_bounds_def)
  from gen_hit_map_runs [OF assms(1) b] obtain r l d u where m:
    "gen_hit_map g (fst t) (snd t) =
       Inr [((fst t + 1, snd t), r), ((fst t - 1, snd t), l),
            ((fst t, snd t + 1), d), ((fst t, snd t - 1), u)]"
    "is_run g (fst t) (snd t) 1 0 r" "is_run g (fst t) (snd t) (- 1) 0 l"
    "is_run g (fst t) (snd t) 0 1 d" "is_run g (fst t) (snd t) 0 (- 1) u"
    by blast
  from m show "\<exists>v. ebind (gen_hit_map g (fst t) (snd t)) (\<lambda>d. dict_get d (fst t + 1, snd t)) = Inr v \<and>
             is_run g (fst t) (snd t) 1 0 v" by (simp add: dict_get_def)
  from m show "\<exists>v. ebind (gen_hit_map g (fst t) (snd t)) (\<lambda>d. dict_get d (fst t - 1, snd t)) = Inr v \<and>
             is_run g (fst t) (snd t) (- 1) 0 v" by (simp add: dict_get_def)
  from m show "\<exists>v. ebind (gen_hit_map g (fst t) (snd t)) (\<lambda>d. dict_get d (fst t, snd t + 1)) = Inr v \<and>
             is_run g (fst t) (snd t) 0 1 v" by (simp add: dict_get_def)
  from m show "\<exists>v. ebind (gen_hit_map g (fst t) (snd t)) (\<lambda>d. dict_get d (fst t, snd t - 1)) = Inr v \<and>
             is_run g (fst t) (snd t) 0 (- 1) v" by (simp add: dict_get_def)
qed

lemma build_hit_map_vertical:
  assumes "wf_board g" "2 \<le> length (hit_mem g)" "\<forall>t\<in>set (hit_mem g). in_bounds g t"
    and "fst (hit_mem g ! 0) = fst (last (hit_mem g))"
  shows "\<exists>lower upper v1 v2.
           build_hit_map g =
             Inr (g\<lparr>hit_mem := sort_key snd (hit_mem g)\<rparr>,
                  [((fst lower, snd lower + 1), v1), ((fst upper, snd upper - 1), v2)]) \<and>
           lower \<in> set (hit_mem g) \<and> upper \<in> set (hit_mem g) \<and>
           (\<forall>t\<in>set (hit_mem g). snd upper \<le> snd t \<and> snd t \<le> snd lower) \<and>
           is_run g (fst lower) (snd lower) 0 1 v1 \<and>
           is_run g (fst upper) (snd upper) 0 (- 1) v2"
proof -
  let ?hs = "sort_key snd (hit_mem g)"
  let ?g1 = "g\<lparr>hit_mem := ?hs\<rparr>"
  let ?lower = "last ?hs" and ?upper = "?hs ! 0"
  from assms(2) have ne: "hit_mem g \<noteq> []" by auto
  note ex = sorted_key_extremes [OF ne, of snd]
  have w1: "wf_board ?g1" using assms(1) by simp
  have bl: "in_bounds ?g1 ?lower" and bu: "in_bounds ?g1 ?upper"
    using ex(1,2) assms(3) by (auto simp: in_bounds_def)
  from hit_score(3) [OF w1 bl] obtain v1 where v1:
    "ebind (gen_hit_map ?g1 (fst ?lower) (snd ?lower)) (\<lambda>d. dict_get d (fst ?lower, snd ?lower + 1)) = Inr v1"
    "is_run g (fst ?lower) (snd ?lower) 0 1 v1" by auto
  from hit_score(4) [OF w1 bu] obtain v2 where v2:
    "ebind (gen_hit_map ?g1 (fst ?upper) (snd ?upper)) (\<lambda>d. dict_get d (fst ?upper, snd ?upper - 1)) = Inr v2"
    "is_run g (fst ?upper) (snd ?upper) 0 (- 1) v2" by auto
  from ex(3) ex(1) have "snd ?upper \<le> snd ?lower" by blast
  then have ne2: "(fst ?lower, snd ?lower + 1) \<noteq> (fst ?upper, snd ?upper - 1)" by simp
  from assms(2) have l1: "length (hit_mem g) \<noteq> 1" by simp
  have "build_hit_map g =
      Inr (?g1, [((fst ?lower, snd ?lower + 1), v1), ((fst ?upper, snd ?upper - 1), v2)])"
    using l1 assms(4) v1(1) v2(1) py_dict_two [OF ne2]
    by (simp add: build_hit_map_def Let_def)
  with ex v1(2) v2(2) show ?thesis by blast
qed

lemma build_hit_map_horizontal:
  assumes "wf_board g" "2 \<le> length (hit_mem g)" "\<forall>t\<in>set (hit_mem g). in_bounds g t"
    and "fst (hit_mem g ! 0) \<noteq> fst (last (hit_mem g))"
  shows "\<exists>high low v1 v2.
           build_hit_map g =
             Inr (g\<lparr>hit_mem := sort_key fst (hit_mem g)\<rparr>,
                  [((fst high + 1, snd high), v1), ((fst low - 1, snd low), v2)]) \<and>
           high \<in> set (hit_mem g) \<and> low \<in> set (hit_mem g) \<and>
           (\<forall>t\<in>set (hit_mem g). fst low \<le> fst t \<and> fst t \<le> fst high) \<and>
           is_run g (fst high) (snd high) 1 0 v1 \<and>
           is_run g (fst low) (snd low) (- 1) 0 v2"
proof -
  let ?hs = "sort_key fst (hit_mem g)"
  let ?g1 = "g\<lparr>hit_mem := ?hs\<rparr>"
  let ?high = "last ?hs" and ?low = "?hs ! 0"
  from assms(2) have ne: "hit_mem g \<noteq> []" by auto
  note ex = sorted_key_extremes [OF ne, of fst]
  have w1: "wf_board ?g1" using assms(1) by simp
  have bl: "in_bounds ?g1 ?high" and bu: "in_bounds ?g1 ?low"
    using ex(1,2) assms(3) by (auto simp: in_bounds_def)
  from hit_score(1) [OF w1 bl] obtain v1 where v1:
    "ebind (gen_hit_map ?g1 (fst ?high) (snd ?high)) (\<lambda>d. dict_get d (fst ?high + 1, snd ?high)) = Inr v1"
    "is_run g (fst ?high) (snd ?high) 1 0 v1" by auto
  from hit_score(2) [OF w1 bu] obtain v2 where v2:
    "ebind (gen_hit_map ?g1 (fst ?low) (snd ?low)) (\<lambda>d. dict_get d (fst ?low - 1, snd ?low)) = Inr v2"
    "is_run g (fst ?low) (snd ?low) (- 1) 0 v2" by auto
  from ex(3) ex(1) have "fst ?low \<le> fst ?high" by blast
  then have ne2: "(fst ?high + 1, snd ?high) \<noteq> (fst ?low - 1, snd ?low)" by simp
  from assms(2) have l1: "length (hit_mem g) \<noteq> 1" by simp
  have "build_hit_map g =
      Inr (?g1, [((fst ?high + 1, snd ?high), v1), ((fst ?low - 1, snd ?low), v2)])"
    using l1 assms(4) v1(1) v2(1) py_dict_two [OF ne2]
    by (simp add: build_hit_map_def Let_def)
  with ex v1(2) v2(2) show ?thesis by blast
qed






subsection \<open>The probability map\<close>

lemma getitem2_in_range:
  assumes "0 \<le> i" "nat i < length b" "0 \<le> j" "nat j < length (b ! nat i)"
  shows "getitem2 b i j = Inr (b ! nat i ! nat j)"
  using assms by (simp add: getitem2_unfold norm_index_def nat_less_iff)

lemma setitem2_in_range:
  assumes "0 \<le> i" "nat i < length b" "0 \<le> j" "nat j < length (b ! nat i)"
  shows "setitem2 b i j v = Inr (b[nat i := (b ! nat i)[nat j := v]])"
  using assms by (simp add: setitem2_unfold norm_index_def nat_less_iff)

lemma dims_update:
  assumes "dims w h P" "i < w"
  shows "dims w h (P[i := (P ! i)[j := v]])"
proof -
  from assms have "length ((P ! i)[j := v]) = h" by (simp add: dims_def)
  with assms show ?thesis
    by (auto simp: dims_def dest!: set_update_subset_insert [THEN subsetD])
qed

lemma step_adds_incr:
  assumes "0 \<le> i" "i < int w" "0 \<le> j" "j < int h"
  shows "step_adds w h (\<lambda>a b. if a = i \<and> b = j then 1 else 0) (\<lambda>P. incr P i j)"
  unfolding step_adds_def
proof (intro allI impI)
  fix P :: "int32 list list"
  assume d: "dims w h P"
  from d assms have r: "nat i < length P" "nat j < length (P ! nat i)" by (auto simp: dims_def)
  let ?P' = "P[nat i := (P ! nat i)[nat j := P ! nat i ! nat j + 1]]"
  have e: "incr P i j = Inr ?P'"
    using assms r by (simp add: incr_def getitem2_in_range setitem2_in_range)
  have d': "dims w h ?P'" using d r by (intro dims_update) (simp_all add: dims_def)
  have "\<forall>a b. 0 \<le> a \<and> a < int w \<and> 0 \<le> b \<and> b < int h \<longrightarrow>
      ?P' ! nat a ! nat b = P ! nat a ! nat b + (if a = i \<and> b = j then 1 else 0)"
  proof (intro allI impI)
    fix a b assume ab: "0 \<le> a \<and> a < int w \<and> 0 \<le> b \<and> b < int h"
    with d have "nat a < length P" "nat b < length (P ! nat a)" by (auto simp: dims_def)
    with ab assms r show "?P' ! nat a ! nat b = P ! nat a ! nat b + (if a = i \<and> b = j then 1 else 0)"
      by (auto simp: nth_list_update)
  qed
  with e d' show "\<exists>P'. incr P i j = Inr P' \<and> dims w h P' \<and>
      (\<forall>a b. 0 \<le> a \<and> a < int w \<and> 0 \<le> b \<and> b < int h \<longrightarrow>
         P' ! nat a ! nat b = P ! nat a ! nat b + (if a = i \<and> b = j then 1 else 0))"
    by blast
qed

lemma step_adds_skip: "step_adds w h (\<lambda>a b. 0) Inr"
  by (simp add: step_adds_def)

lemma step_adds_seq:
  assumes "step_adds w h d1 m1" "step_adds w h d2 m2"
  shows "step_adds w h (\<lambda>a b. d1 a b + d2 a b) (\<lambda>P. ebind (m1 P) m2)"
  unfolding step_adds_def
proof (intro allI impI)
  fix P :: "int32 list list"
  assume d: "dims w h P"
  from assms(1) d obtain P1 where 1: "m1 P = Inr P1" "dims w h P1"
    "\<forall>a b. 0 \<le> a \<and> a < int w \<and> 0 \<le> b \<and> b < int h \<longrightarrow>
       P1 ! nat a ! nat b = P ! nat a ! nat b + d1 a b"
    unfolding step_adds_def by blast
  from assms(2) 1(2) obtain P2 where 2: "m2 P1 = Inr P2" "dims w h P2"
    "\<forall>a b. 0 \<le> a \<and> a < int w \<and> 0 \<le> b \<and> b < int h \<longrightarrow>
       P2 ! nat a ! nat b = P1 ! nat a ! nat b + d2 a b"
    unfolding step_adds_def by blast
  from 1 2 show "\<exists>P'. ebind (m1 P) m2 = Inr P' \<and> dims w h P' \<and>
      (\<forall>a b. 0 \<le> a \<and> a < int w \<and> 0 \<le> b \<and> b < int h \<longrightarrow>
         P' ! nat a ! nat b = P ! nat a ! nat b + (d1 a b + d2 a b))"
    by (simp add: add.assoc)
qed

lemma step_adds_for_loop:
  assumes "\<And>x. x \<in> set xs \<Longrightarrow> step_adds w h (d x) (body x)"
  shows "step_adds w h (\<lambda>a b. \<Sum>x\<leftarrow>xs. d x a b) (for_loop xs body)"
  using assms
proof (induction xs)
  case Nil
  have "for_loop [] body = Inr" by (intro ext) simp
  then show ?case by (simp add: step_adds_skip)
next
  case (Cons x xs)
  have 1: "step_adds w h (d x) (body x)" using Cons.prems by simp
  have 2: "step_adds w h (\<lambda>a b. \<Sum>x\<leftarrow>xs. d x a b) (for_loop xs body)"
    using Cons by simp
  have "for_loop (x # xs) body = (\<lambda>P. ebind (body x P) (for_loop xs body))"
    by (intro ext) simp
  with step_adds_seq [OF 1 2] show ?case by simp
qed

lemma step_adds_cong:
  assumes "step_adds w h d m"
    and "\<And>a b. 0 \<le> a \<Longrightarrow> a < int w \<Longrightarrow> 0 \<le> b \<Longrightarrow> b < int h \<Longrightarrow> d a b = d' a b"
  shows "step_adds w h d' m"
  using assms unfolding step_adds_def by metis

lemma check_shift_eval:
  assumes "wf_board g" "0 \<le> x" "x < width g" "0 \<le> y" "y < height g" "0 \<le> k"
  shows "check_shift g x y k (a, b) =
           Inr (a \<and> is_unknown g (x + k) y, b \<and> is_unknown g x (y + k))"
proof -
  have 1: "(if width g \<le> x + k then Inr True
            else ebind (getitem2 (board g) (x + k) y) (\<lambda>c. Inr (c \<noteq> ''.''))) =
           Inr (\<not> is_unknown g (x + k) y)"
    using assms by (simp add: getitem2_wf is_unknown_def)
  have 2: "(if height g \<le> y + k then Inr True
            else ebind (getitem2 (board g) x (y + k)) (\<lambda>c. Inr (c \<noteq> ''.''))) =
           Inr (\<not> is_unknown g x (y + k))"
    using assms by (simp add: getitem2_wf is_unknown_def)
  show ?thesis by (simp add: check_shift_def 1 2)
qed

lemma scan_valid:
  assumes "wf_board g" "0 \<le> x" "x < width g" "0 \<le> y" "y < height g" "\<forall>k\<in>set ks. 0 \<le> k"
  shows "for_loop ks (check_shift g x y) (a, b) =
           Inr (a \<and> (\<forall>k\<in>set ks. is_unknown g (x + k) y),
                b \<and> (\<forall>k\<in>set ks. is_unknown g x (y + k)))"
  using assms(6)
proof (induction ks arbitrary: a b)
  case Nil
  show ?case by simp
next
  case (Cons k ks)
  from Cons.prems have k: "0 \<le> k" and ks: "\<forall>k\<in>set ks. 0 \<le> k" by simp_all
  show ?case
    by (simp add: check_shift_eval [OF assms(1-5) k] Cons.IH [OF ks])
qed

lemma valid_horizontal:
  "valid_placement g Horizontal L (x, y) \<longleftrightarrow> (\<forall>k\<in>set [0..L - 1]. is_unknown g (x + k) y)"
  by (simp add: valid_placement_def segment_def)

lemma valid_vertical:
  "valid_placement g Vertical L (x, y) \<longleftrightarrow> (\<forall>k\<in>set [0..L - 1]. is_unknown g x (y + k))"
  by (simp add: valid_placement_def segment_def)

lemma scan_placements:
  assumes "wf_board g" "0 \<le> x" "x < width g" "0 \<le> y" "y < height g"
  shows "for_loop (py_range 0 ship) (check_shift g x y) (True, True) =
           Inr (valid_placement g Horizontal ship (x, y), valid_placement g Vertical ship (x, y))"
proof -
  have "\<forall>k\<in>set (py_range 0 ship). 0 \<le> k" by (simp add: py_range_def)
  from scan_valid [OF assms this] show ?thesis
    by (simp add: valid_horizontal valid_vertical py_range_def)
qed

lemma sum_indicator:
  "distinct xs \<Longrightarrow> (\<Sum>x\<leftarrow>xs. if x = c then 1 else 0) = (if c \<in> set xs then 1 else (0::int32))"
  by (induction xs) auto

lemma covers_horizontal:
  "(\<Sum>k\<leftarrow>[0..L - 1]. if a = x + k \<and> b = y then 1 else 0) =
     (if (a, b) \<in> set (segment Horizontal L (x, y)) then 1 else (0::int32))"
proof -
  have "(\<Sum>k\<leftarrow>[0..L - 1]. if a = x + k \<and> b = y then 1 else (0::int32)) =
        (if b = y then (\<Sum>k\<leftarrow>[0..L - 1]. if k = a - x then 1 else 0) else 0)"
    by (auto intro!: arg_cong [where f = sum_list])
  also have "\<dots> = (if b = y \<and> a - x \<in> set [0..L - 1] then 1 else 0)"
    by (simp add: sum_indicator)
  also have "\<dots> = (if (a, b) \<in> set (segment Horizontal L (x, y)) then 1 else 0)"
    by (auto simp: segment_def image_iff intro: bexI [of _ "a - x"])
  finally show ?thesis .
qed

lemma covers_vertical:
  "(\<Sum>k\<leftarrow>[0..L - 1]. if a = x \<and> b = y + k then 1 else 0) =
     (if (a, b) \<in> set (segment Vertical L (x, y)) then 1 else (0::int32))"
proof -
  have "(\<Sum>k\<leftarrow>[0..L - 1]. if a = x \<and> b = y + k then 1 else (0::int32)) =
        (if a = x then (\<Sum>k\<leftarrow>[0..L - 1]. if k = b - y then 1 else 0) else 0)"
    by (auto intro!: arg_cong [where f = sum_list])
  also have "\<dots> = (if a = x \<and> b - y \<in> set [0..L - 1] then 1 else 0)"
    by (simp add: sum_indicator)
  also have "\<dots> = (if (a, b) \<in> set (segment Vertical L (x, y)) then 1 else 0)"
    by (auto simp: segment_def image_iff intro: bexI [of _ "b - y"])
  finally show ?thesis .
qed



lemma place_horizontal_adds:
  assumes "wf_board g" "valid_placement g Horizontal ship (x, y)" "0 \<le> x" "0 \<le> y"
  shows "step_adds (nat (width g)) (nat (height g))
           (\<lambda>a b. if (a, b) \<in> set (segment Horizontal ship (x, y)) then 1 else 0)
           (for_loop (py_range 0 ship) (\<lambda>x_shift Q. incr Q (x + x_shift) y))"
proof -
  have "step_adds (nat (width g)) (nat (height g))
          (\<lambda>a b. \<Sum>k\<leftarrow>py_range 0 ship. if a = x + k \<and> b = y then 1 else 0)
          (for_loop (py_range 0 ship) (\<lambda>x_shift Q. incr Q (x + x_shift) y))"
  proof (rule step_adds_for_loop)
    fix k assume "k \<in> set (py_range 0 ship)"
    then have k: "k \<in> set [0..ship - 1]" by (simp add: py_range_def)
    with assms(2) have "is_unknown g (x + k) y" by (simp add: valid_horizontal)
    then have "0 \<le> x + k" "x + k < int (nat (width g))" "0 \<le> y" "y < int (nat (height g))"
      by (simp_all add: is_unknown_def)
    then show "step_adds (nat (width g)) (nat (height g))
        (\<lambda>a b. if a = x + k \<and> b = y then 1 else 0) (\<lambda>Q. incr Q (x + k) y)"
      by (rule step_adds_incr)
  qed
  then show ?thesis by (simp add: py_range_def covers_horizontal)
qed

lemma place_vertical_adds:
  assumes "wf_board g" "valid_placement g Vertical ship (x, y)" "0 \<le> x" "0 \<le> y"
  shows "step_adds (nat (width g)) (nat (height g))
           (\<lambda>a b. if (a, b) \<in> set (segment Vertical ship (x, y)) then 1 else 0)
           (for_loop (py_range 0 ship) (\<lambda>y_shift Q. incr Q x (y + y_shift)))"
proof -
  have "step_adds (nat (width g)) (nat (height g))
          (\<lambda>a b. \<Sum>k\<leftarrow>py_range 0 ship. if a = x \<and> b = y + k then 1 else 0)
          (for_loop (py_range 0 ship) (\<lambda>y_shift Q. incr Q x (y + y_shift)))"
  proof (rule step_adds_for_loop)
    fix k assume "k \<in> set (py_range 0 ship)"
    then have k: "k \<in> set [0..ship - 1]" by (simp add: py_range_def)
    with assms(2) have "is_unknown g x (y + k)" by (simp add: valid_vertical)
    then have "0 \<le> x" "x < int (nat (width g))" "0 \<le> y + k" "y + k < int (nat (height g))"
      by (simp_all add: is_unknown_def)
    then show "step_adds (nat (width g)) (nat (height g))
        (\<lambda>a b. if a = x \<and> b = y + k then 1 else 0) (\<lambda>Q. incr Q x (y + k))"
      by (rule step_adds_incr)
  qed
  then show ?thesis by (simp add: py_range_def covers_vertical)
qed

lemma place_at_adds:
  assumes "wf_board g" "0 \<le> x" "x < width g" "0 \<le> y" "y < height g"
  shows "step_adds (nat (width g)) (nat (height g))
           (\<lambda>a b. (if covering g Horizontal ship (x, y) a b then 1 else 0) +
                   (if covering g Vertical ship (x, y) a b then 1 else 0))
           (place_at g ship y x)"
proof -
  let ?w = "nat (width g)" and ?h = "nat (height g)"
  let ?mh = "\<lambda>P. if valid_placement g Horizontal ship (x, y)
            then for_loop (py_range 0 ship) (\<lambda>x_shift Q. incr Q (x + x_shift) y) P
            else Inr P"
  let ?mv = "\<lambda>P1. if valid_placement g Vertical ship (x, y)
            then for_loop (py_range 0 ship) (\<lambda>y_shift Q. incr Q x (y + y_shift)) P1
            else Inr P1"
  have p: "place_at g ship y x = (\<lambda>P. ebind (?mh P) ?mv)"
    by (intro ext) (simp add: place_at_def scan_placements [OF assms])
  have h: "step_adds ?w ?h (\<lambda>a b. if covering g Horizontal ship (x, y) a b then 1 else 0) ?mh"
  proof (cases "valid_placement g Horizontal ship (x, y)")
    case True
    from place_horizontal_adds [OF assms(1) True assms(2,4)] True show ?thesis
      by (simp add: covering_def)
  next
    case False
    have "(\<lambda>P::int32 list list. Inr P :: error + int32 list list) = Inr" by (intro ext) simp
    with False show ?thesis using step_adds_skip [of ?w ?h] by (simp add: covering_def)
  qed
  have v: "step_adds ?w ?h (\<lambda>a b. if covering g Vertical ship (x, y) a b then 1 else 0) ?mv"
  proof (cases "valid_placement g Vertical ship (x, y)")
    case True
    from place_vertical_adds [OF assms(1) True assms(2,4)] True show ?thesis
      by (simp add: covering_def)
  next
    case False
    have "(\<lambda>P::int32 list list. Inr P :: error + int32 list list) = Inr" by (intro ext) simp
    with False show ?thesis using step_adds_skip [of ?w ?h] by (simp add: covering_def)
  qed
  from step_adds_seq [OF h v] p show ?thesis by simp
qed

lemma length_filter_indicator:
  "of_nat (length (filter Q zs)) = (\<Sum>z\<leftarrow>zs. if Q z then 1 else (0::int32))"
  by (induction zs) auto

lemma sum_list_concat_map:
  "(\<Sum>z\<leftarrow>concat (map f ys). g z) = (\<Sum>y\<leftarrow>ys. \<Sum>z\<leftarrow>f y. (g z :: int32))"
  by (induction ys) auto

lemma count_grid:
  "of_nat (length (filter Q (grid_cells g))) =
     (\<Sum>y\<leftarrow>[0..height g - 1]. \<Sum>x\<leftarrow>[0..width g - 1]. if Q (x, y) then 1 else (0::int32))"
  by (simp add: length_filter_indicator grid_cells_def sum_list_concat_map o_def)

lemma placement_count_word:
  "(word_of_nat (placement_count g a b) :: int32) =
     (\<Sum>L\<leftarrow>ships g. \<Sum>y\<leftarrow>[0..height g - 1]. \<Sum>x\<leftarrow>[0..width g - 1].
        (if covering g Horizontal L (x, y) a b then 1 else 0) +
        (if covering g Vertical L (x, y) a b then 1 else 0))"
proof -
  have "(word_of_nat (placement_count g a b) :: int32) =
      (\<Sum>L\<leftarrow>ships g.
         word_of_nat (length (filter (\<lambda>origin. covering g Horizontal L origin a b) (grid_cells g))) +
         word_of_nat (length (filter (\<lambda>origin. covering g Vertical L origin a b) (grid_cells g))))"
    by (simp add: placement_count_def covering_def sum_list_of_nat [symmetric] o_def)
  also have "\<dots> =
      (\<Sum>L\<leftarrow>ships g. \<Sum>y\<leftarrow>[0..height g - 1]. \<Sum>x\<leftarrow>[0..width g - 1].
        (if covering g Horizontal L (x, y) a b then 1 else 0) +
        (if covering g Vertical L (x, y) a b then 1 else 0))"
    by (simp add: count_grid sum_list_addf)
  finally show ?thesis .
qed

lemma gen_prob_map_word:
  assumes "wf_board g"
  shows "\<exists>P. gen_prob_map g = Inr P \<and> dims (nat (width g)) (nat (height g)) P \<and>
           (\<forall>a b. 0 \<le> a \<and> a < width g \<and> 0 \<le> b \<and> b < height g \<longrightarrow>
              P ! nat a ! nat b = word_of_nat (placement_count g a b))"
proof -
  let ?w = "nat (width g)" and ?h = "nat (height g)"
  let ?P0 = "replicate ?w (replicate ?h (0::int32))"
  let ?d = "\<lambda>L y x a b. (if covering g Horizontal L (x, y) a b then 1 else 0) +
                         (if covering g Vertical L (x, y) a b then 1 else (0::int32))"
  from assms have nn: "0 \<le> width g" "0 \<le> height g" by (simp_all add: wf_board_def)
  then have z: "np_zeros (width g) (height g) = Inr ?P0" by (simp add: np_zeros_def)
  have d0: "dims ?w ?h ?P0" by (simp add: dims_def)
  have inner: "\<And>L y. y \<in> set (py_range 0 (height g)) \<Longrightarrow>
      step_adds ?w ?h (\<lambda>a b. \<Sum>x\<leftarrow>py_range 0 (width g). ?d L y x a b)
        (for_loop (py_range 0 (width g)) (place_at g L y))"
  proof -
    fix L y assume y: "y \<in> set (py_range 0 (height g))"
    show "step_adds ?w ?h (\<lambda>a b. \<Sum>x\<leftarrow>py_range 0 (width g). ?d L y x a b)
        (for_loop (py_range 0 (width g)) (place_at g L y))"
    proof (rule step_adds_for_loop [where d = "\<lambda>x. ?d L y x"])
      fix x assume "x \<in> set (py_range 0 (width g))"
      with y have "0 \<le> x" "x < width g" "0 \<le> y" "y < height g" by (simp_all add: py_range_def)
      from place_at_adds [OF assms this]
      show "step_adds ?w ?h (?d L y x) (place_at g L y x)" .
    qed
  qed
  have middle: "\<And>L. step_adds ?w ?h
        (\<lambda>a b. \<Sum>y\<leftarrow>py_range 0 (height g). \<Sum>x\<leftarrow>py_range 0 (width g). ?d L y x a b)
        (for_loop (py_range 0 (height g)) (\<lambda>y. for_loop (py_range 0 (width g)) (place_at g L y)))"
  proof -
    fix L
    show "step_adds ?w ?h
        (\<lambda>a b. \<Sum>y\<leftarrow>py_range 0 (height g). \<Sum>x\<leftarrow>py_range 0 (width g). ?d L y x a b)
        (for_loop (py_range 0 (height g)) (\<lambda>y. for_loop (py_range 0 (width g)) (place_at g L y)))"
      by (rule step_adds_for_loop
            [where d = "\<lambda>y a b. \<Sum>x\<leftarrow>py_range 0 (width g). ?d L y x a b"
               and body = "\<lambda>y. for_loop (py_range 0 (width g)) (place_at g L y)"])
         (rule inner)
  qed
  have "step_adds ?w ?h (\<lambda>a b. \<Sum>L\<leftarrow>ships g. \<Sum>y\<leftarrow>py_range 0 (height g).
            \<Sum>x\<leftarrow>py_range 0 (width g). ?d L y x a b)
          (for_loop (ships g) (\<lambda>ship.
             for_loop (py_range 0 (height g)) (\<lambda>y.
               for_loop (py_range 0 (width g)) (place_at g ship y))))"
    by (rule step_adds_for_loop
          [where d = "\<lambda>L a b. \<Sum>y\<leftarrow>py_range 0 (height g). \<Sum>x\<leftarrow>py_range 0 (width g). ?d L y x a b"
             and body = "\<lambda>ship. for_loop (py_range 0 (height g)) (\<lambda>y.
               for_loop (py_range 0 (width g)) (place_at g ship y))"])
       (rule middle)
  with d0 have "\<exists>P. for_loop (ships g) (\<lambda>ship.
             for_loop (py_range 0 (height g)) (\<lambda>y.
               for_loop (py_range 0 (width g)) (place_at g ship y))) ?P0 = Inr P \<and>
    dims ?w ?h P \<and>
    (\<forall>a b. 0 \<le> a \<and> a < int ?w \<and> 0 \<le> b \<and> b < int ?h \<longrightarrow>
       P ! nat a ! nat b = ?P0 ! nat a ! nat b +
         (\<Sum>L\<leftarrow>ships g. \<Sum>y\<leftarrow>py_range 0 (height g). \<Sum>x\<leftarrow>py_range 0 (width g). ?d L y x a b))"
    unfolding step_adds_def by (elim allE [of _ ?P0]) (erule impE, assumption+)
  then obtain P where P: "for_loop (ships g) (\<lambda>ship.
             for_loop (py_range 0 (height g)) (\<lambda>y.
               for_loop (py_range 0 (width g)) (place_at g ship y))) ?P0 = Inr P"
    "dims ?w ?h P"
    "\<forall>a b. 0 \<le> a \<and> a < int ?w \<and> 0 \<le> b \<and> b < int ?h \<longrightarrow>
       P ! nat a ! nat b = ?P0 ! nat a ! nat b +
         (\<Sum>L\<leftarrow>ships g. \<Sum>y\<leftarrow>py_range 0 (height g). \<Sum>x\<leftarrow>py_range 0 (width g). ?d L y x a b)"
    by blast
  have "\<forall>a b. 0 \<le> a \<and> a < width g \<and> 0 \<le> b \<and> b < height g \<longrightarrow>
      P ! nat a ! nat b = word_of_nat (placement_count g a b)"
  proof (intro allI impI)
    fix a b assume ab: "0 \<le> a \<and> a < width g \<and> 0 \<le> b \<and> b < height g"
    then have "nat a < ?w" "nat b < ?h" by auto
    then have "?P0 ! nat a ! nat b = 0" by simp
    moreover from ab have "0 \<le> a \<and> a < int ?w \<and> 0 \<le> b \<and> b < int ?h" by simp
    moreover from P(3) have "0 \<le> a \<and> a < int ?w \<and> 0 \<le> b \<and> b < int ?h \<longrightarrow>
       P ! nat a ! nat b = ?P0 ! nat a ! nat b +
         (\<Sum>L\<leftarrow>ships g. \<Sum>y\<leftarrow>py_range 0 (height g). \<Sum>x\<leftarrow>py_range 0 (width g). ?d L y x a b)"
      by (elim allE)
    ultimately have "P ! nat a ! nat b =
        (\<Sum>L\<leftarrow>ships g. \<Sum>y\<leftarrow>py_range 0 (height g). \<Sum>x\<leftarrow>py_range 0 (width g). ?d L y x a b)"
      by (simp del: nth_replicate)
    then show "P ! nat a ! nat b = word_of_nat (placement_count g a b)"
      by (simp only: placement_count_word py_range_def)
  qed
  with z P(1,2) show ?thesis by (simp add: gen_prob_map_def)
qed

lemma sint_count:
  assumes "n < 2 ^ 31"
  shows "sint (word_of_nat n :: int32) = int n"
proof -
  have "sint (word_of_nat n :: int32) = signed_take_bit 31 (int n)"
    by (simp add: signed_of_nat)
  also have "\<dots> = int n"
    using assms by (intro signed_take_bit_int_eq_self) simp_all
  finally show ?thesis .
qed

text \<open>
  Claim C1, as the code has it.  On a well-formed board \<open>_gen_prob_map\<close> does not raise and
  returns an array of \<open>width\<close> columns of \<open>height\<close> cells; the cell \<open>(x, y)\<close> holds
  \<open>placement_count g x y\<close> as an int32: the number of pairs of an entry of the remaining-ship
  list and an axis-aligned placement of that length that fits the grid, covers \<open>(x, y)\<close> and
  covers unknown cells only, horizontal and vertical placements counted separately and a
  length counted once for each of its occurrences.  The cell read as a signed number is that
  count whenever the count is below \<open>2 ^ 31\<close>.
\<close>

theorem prob_map_counts:
  assumes "wf_board g"
  shows "\<exists>P. gen_prob_map g = Inr P \<and> length P = nat (width g) \<and>
           (\<forall>col\<in>set P. length col = nat (height g)) \<and>
           (\<forall>x y. 0 \<le> x \<and> x < width g \<and> 0 \<le> y \<and> y < height g \<longrightarrow>
              P ! nat x ! nat y = word_of_nat (placement_count g x y) \<and>
              (placement_count g x y < 2 ^ 31 \<longrightarrow>
                 sint (P ! nat x ! nat y) = int (placement_count g x y)))"
proof -
  from gen_prob_map_word [OF assms] obtain P where P: "gen_prob_map g = Inr P"
    "dims (nat (width g)) (nat (height g)) P"
    "\<forall>a b. 0 \<le> a \<and> a < width g \<and> 0 \<le> b \<and> b < height g \<longrightarrow>
       P ! nat a ! nat b = word_of_nat (placement_count g a b)"
    by blast
  then show ?thesis by (auto simp: dims_def sint_count)
qed

lemma small_board_counts:
  "placement_count small_board 0 0 = 2" "placement_count small_board 1 0 = 0"
  "placement_count small_board 2 0 = 2" "placement_count small_board 0 1 = 4"
  "placement_count small_board 1 1 = 4" "placement_count small_board 2 1 = 4"
  by code_simp+

lemma small_board_map:
  "gen_prob_map small_board = Inr [[2, 4], [0, 4], [2, 4]]"
  by code_simp

lemma heavy_fleet_fields:
  "width heavy_fleet = 1" "height heavy_fleet = 1" "board heavy_fleet = [[''.'']]"
  "ships heavy_fleet = replicate (2 ^ 30) 1"
  by (simp_all add: heavy_fleet_def new_game_def)

lemma heavy_fleet_count: "placement_count heavy_fleet 0 0 = 2147483648"
proof -
  have u: "is_unknown heavy_fleet 0 0" by (simp add: is_unknown_def heavy_fleet_fields)
  have c: "(\<Sum>ori\<leftarrow>[Horizontal, Vertical].
        length (filter (\<lambda>origin. valid_placement heavy_fleet ori 1 origin \<and>
                                  (0, 0) \<in> set (segment ori 1 origin))
                       (grid_cells heavy_fleet))) = 2"
    using u by (simp add: grid_cells_def valid_placement_def segment_def heavy_fleet_fields(1,2))
  have "placement_count heavy_fleet 0 0 = 2 ^ 30 * 2"
    unfolding placement_count_def heavy_fleet_fields(4) map_replicate c sum_list_replicate
    by simp
  then show ?thesis by simp
qed

text \<open>
  Claim C1 as stated, for every remaining-ship list, fails: the cells are int32.  On the 1 x 1
  board with \<open>2 ^ 30\<close> ships of length 1 the count for the cell is \<open>2 ^ 31\<close> and the cell
  holds \<open>- 2 ^ 31\<close>.
\<close>

theorem prob_map_wraps:
  "(case gen_prob_map heavy_fleet of
      Inl e \<Rightarrow> False
    | Inr P \<Rightarrow> sint (P ! 0 ! 0) = - 2147483648) \<and>
   placement_count heavy_fleet 0 0 = 2147483648"
proof -
  have w: "wf_board heavy_fleet" unfolding heavy_fleet_def by (rule wf_new_game) simp_all
  from gen_prob_map_word [OF w] obtain P where P: "gen_prob_map heavy_fleet = Inr P"
    "\<forall>a b. 0 \<le> a \<and> a < width heavy_fleet \<and> 0 \<le> b \<and> b < height heavy_fleet \<longrightarrow>
       P ! nat a ! nat b = word_of_nat (placement_count heavy_fleet a b)"
    by blast
  from P(2) have "P ! nat 0 ! nat 0 = word_of_nat (placement_count heavy_fleet 0 0)"
    by (simp add: heavy_fleet_fields)
  then have "P ! 0 ! 0 = (word_of_nat 2147483648 :: int32)" by (simp add: heavy_fleet_count)
  then have "sint (P ! 0 ! 0) = - 2147483648" by simp
  with P(1) heavy_fleet_count show ?thesis by simp
qed

lemma wf_small_board: "wf_board small_board"
  by (simp add: wf_board_def small_board_def)

text \<open>
  The hypothesis of \<open>prob_map_counts\<close> holds on \<open>small_board\<close>, where the map and the
  counts are as follows.
\<close>

theorem prob_map_counts_witness:
  "wf_board small_board \<and>
   gen_prob_map small_board = Inr [[2, 4], [0, 4], [2, 4]] \<and>
   placement_count small_board 0 0 = 2 \<and> placement_count small_board 1 0 = 0 \<and>
   placement_count small_board 2 0 = 2 \<and> placement_count small_board 0 1 = 4 \<and>
   placement_count small_board 1 1 = 4 \<and> placement_count small_board 2 1 = 4 \<and>
   (\<exists>P. gen_prob_map small_board = Inr P \<and>
      (\<forall>x y. 0 \<le> x \<and> x < width small_board \<and> 0 \<le> y \<and> y < height small_board \<longrightarrow>
         placement_count small_board x y < 2 ^ 31 \<and>
         sint (P ! nat x ! nat y) = int (placement_count small_board x y)))"
proof -
  have wh: "width small_board = 3" "height small_board = 2" by (simp_all add: small_board_def)
  have r: "\<And>x y. 0 \<le> x \<and> x < 3 \<and> 0 \<le> y \<and> y < 2 \<Longrightarrow> (x, y) \<in> set [(0::int, 0::int), (1, 0), (2, 0), (0, 1), (1, 1), (2, 1)]"
    by auto
  have lt: "\<And>x y. 0 \<le> x \<and> x < width small_board \<and> 0 \<le> y \<and> y < height small_board \<Longrightarrow>
      placement_count small_board x y < 2 ^ 31"
  proof -
    fix x y assume "0 \<le> x \<and> x < width small_board \<and> 0 \<le> y \<and> y < height small_board"
    with r [of x y] wh
    have "(x, y) \<in> set [(0::int, 0::int), (1, 0), (2, 0), (0, 1), (1, 1), (2, 1)]" by simp
    then show "placement_count small_board x y < 2 ^ 31"
      using small_board_counts by auto
  qed
  from prob_map_counts [OF wf_small_board] obtain P where P: "gen_prob_map small_board = Inr P"
    "\<forall>x y. 0 \<le> x \<and> x < width small_board \<and> 0 \<le> y \<and> y < height small_board \<longrightarrow>
       P ! nat x ! nat y = word_of_nat (placement_count small_board x y) \<and>
       (placement_count small_board x y < 2 ^ 31 \<longrightarrow>
          sint (P ! nat x ! nat y) = int (placement_count small_board x y))"
    by blast
  from P lt have "\<exists>P. gen_prob_map small_board = Inr P \<and>
      (\<forall>x y. 0 \<le> x \<and> x < width small_board \<and> 0 \<le> y \<and> y < height small_board \<longrightarrow>
         placement_count small_board x y < 2 ^ 31 \<and>
         sint (P ! nat x ! nat y) = int (placement_count small_board x y))"
    by blast
  with wf_small_board small_board_map small_board_counts show ?thesis by simp
qed

subsection \<open>The sum of the probability map\<close>

lemma grid_sum_zero: "grid_sum g (\<lambda>a b. 0) = 0"
  by (simp add: grid_sum_def)

lemma grid_sum_add: "grid_sum g (\<lambda>a b. f a b + h a b) = grid_sum g f + grid_sum g h"
  by (simp add: grid_sum_def sum_list_addf)

lemma grid_sum_sum_list:
  "grid_sum g (\<lambda>a b. \<Sum>z\<leftarrow>zs. F z a b) = (\<Sum>z\<leftarrow>zs. grid_sum g (F z))"
  by (induction zs) (simp_all add: grid_sum_zero grid_sum_add)

lemma length_filter_sum: "length (filter Q zs) = (\<Sum>z\<leftarrow>zs. if Q z then 1 else 0)"
  by (induction zs) auto

lemma grid_sum_indicator:
  "grid_sum g (\<lambda>a b. if (a, b) \<in> S then 1 else 0) =
     card (({0..width g - 1} \<times> {0..height g - 1}) \<inter> S)"
proof -
  have "grid_sum g (\<lambda>a b. if (a, b) \<in> S then 1 else 0) =
      (\<Sum>a\<in>{0..width g - 1}. \<Sum>b\<in>{0..height g - 1}. if (a, b) \<in> S then 1 else 0)"
    by (simp add: grid_sum_def sum_list_distinct_conv_sum_set)
  also have "\<dots> = (\<Sum>p\<in>{0..width g - 1} \<times> {0..height g - 1}. if p \<in> S then 1 else 0)"
    by (simp add: sum.cartesian_product)
  also have "\<dots> = card (({0..width g - 1} \<times> {0..height g - 1}) \<inter> S)"
    by (simp add: sum.inter_restrict [symmetric])
  finally show ?thesis .
qed

lemma length_segment: "length (segment ori L origin) = nat L"
  by (cases ori) (simp_all add: segment_def)

lemma distinct_segment: "distinct (segment ori L origin)"
  by (cases ori) (simp_all add: segment_def distinct_map inj_on_def)

lemma valid_in_grid:
  assumes "valid_placement g ori L origin"
  shows "set (segment ori L origin) \<subseteq> {0..width g - 1} \<times> {0..height g - 1}"
proof
  fix c assume "c \<in> set (segment ori L origin)"
  with assms have "is_unknown g (fst c) (snd c)" by (simp add: valid_placement_def)
  then have "fst c \<in> {0..width g - 1}" "snd c \<in> {0..height g - 1}"
    by (simp_all add: is_unknown_def)
  then show "c \<in> {0..width g - 1} \<times> {0..height g - 1}" by (cases c) simp
qed

lemma grid_sum_covering:
  "grid_sum g (\<lambda>a b. if covering g ori L origin a b then 1 else 0) =
     (if valid_placement g ori L origin then nat L else 0)"
proof (cases "valid_placement g ori L origin")
  case False
  then show ?thesis by (simp add: covering_def grid_sum_zero)
next
  case True
  let ?S = "set (segment ori L origin)"
  from valid_in_grid [OF True] have "({0..width g - 1} \<times> {0..height g - 1}) \<inter> ?S = ?S" by blast
  then have "grid_sum g (\<lambda>a b. if (a, b) \<in> ?S then 1 else 0) = card ?S"
    by (simp add: grid_sum_indicator)
  also have "\<dots> = nat L"
    by (simp add: distinct_card [OF distinct_segment] length_segment)
  finally show ?thesis using True by (simp add: covering_def)
qed

lemma placement_count_sum:
  "placement_count g a b =
     (\<Sum>L\<leftarrow>ships g. \<Sum>ori\<leftarrow>[Horizontal, Vertical]. \<Sum>origin\<leftarrow>grid_cells g.
         if covering g ori L origin a b then 1 else 0)"
  by (simp add: placement_count_def covering_def length_filter_sum)

lemma sum_list_if_const:
  "(\<Sum>z\<leftarrow>zs. if Q z then n else 0) = n * length (filter Q zs)" for n :: nat
  by (induction zs) auto

lemma grid_sum_counts:
  "grid_sum g (placement_count g) = (\<Sum>L\<leftarrow>ships g. nat L * placements g L)"
proof -
  have "placement_count g =
      (\<lambda>a b. \<Sum>L\<leftarrow>ships g. \<Sum>ori\<leftarrow>[Horizontal, Vertical]. \<Sum>origin\<leftarrow>grid_cells g.
         if covering g ori L origin a b then 1 else 0)"
    by (intro ext) (rule placement_count_sum)
  then have "grid_sum g (placement_count g) =
      grid_sum g (\<lambda>a b. \<Sum>L\<leftarrow>ships g. \<Sum>ori\<leftarrow>[Horizontal, Vertical]. \<Sum>origin\<leftarrow>grid_cells g.
         if covering g ori L origin a b then 1 else 0)"
    by (simp only:)
  also have "\<dots> = (\<Sum>L\<leftarrow>ships g. \<Sum>ori\<leftarrow>[Horizontal, Vertical]. \<Sum>origin\<leftarrow>grid_cells g.
         grid_sum g (\<lambda>a b. if covering g ori L origin a b then 1 else 0))"
    by (simp only: grid_sum_sum_list)
  also have "\<dots> = (\<Sum>L\<leftarrow>ships g. \<Sum>ori\<leftarrow>[Horizontal, Vertical]. \<Sum>origin\<leftarrow>grid_cells g.
         if valid_placement g ori L origin then nat L else 0)"
    by (simp only: grid_sum_covering)
  also have "\<dots> = (\<Sum>L\<leftarrow>ships g. \<Sum>ori\<leftarrow>[Horizontal, Vertical].
         nat L * length (filter (valid_placement g ori L) (grid_cells g)))"
    by (simp only: sum_list_if_const)
  also have "\<dots> = (\<Sum>L\<leftarrow>ships g. nat L * placements g L)"
    by (simp add: placements_def distrib_left)
  finally show ?thesis .
qed

lemma upto_from_zero: "[0..int n - 1] = map int [0..<n]"
proof (induction n)
  case 0
  show ?case by simp
next
  case (Suc n)
  have "[0..int (Suc n) - 1] = [0..int n - 1] @ [int n]"
    using upto_rec2 [of 0 "int n"] by simp
  with Suc show ?case by simp
qed

lemma sum_list_by_index:
  "(\<Sum>x\<leftarrow>xs. f x) = (\<Sum>i\<leftarrow>[0..int (length xs) - 1]. f (xs ! nat i))" for f :: "'a \<Rightarrow> int"
proof -
  have "map f xs = map f (map (\<lambda>i. xs ! i) [0..<length xs])" by (simp only: map_nth)
  also have "\<dots> = map (\<lambda>i. f (xs ! nat i)) [0..int (length xs) - 1]"
    by (simp add: upto_from_zero o_def)
  finally show ?thesis by simp
qed

lemma map_total_grid:
  assumes "dims (nat (width g)) (nat (height g)) P" "0 \<le> width g" "0 \<le> height g"
  shows "map_total P = (\<Sum>a\<leftarrow>[0..width g - 1]. \<Sum>b\<leftarrow>[0..height g - 1]. sint (P ! nat a ! nat b))"
proof -
  have "map_total P = (\<Sum>a\<leftarrow>[0..int (length P) - 1]. \<Sum>v\<leftarrow>P ! nat a. sint v)"
    unfolding map_total_def by (rule sum_list_by_index)
  also have "\<dots> = (\<Sum>a\<leftarrow>[0..width g - 1]. \<Sum>v\<leftarrow>P ! nat a. sint v)"
    using assms by (simp add: dims_def)
  also have "\<dots> = (\<Sum>a\<leftarrow>[0..width g - 1]. \<Sum>b\<leftarrow>[0..height g - 1]. sint (P ! nat a ! nat b))"
  proof (rule arg_cong [where f = sum_list], rule map_cong [OF refl])
    fix a assume "a \<in> set [0..width g - 1]"
    with assms have "nat a < length P" by (auto simp: dims_def)
    with assms have l: "int (length (P ! nat a)) = height g" by (simp add: dims_def)
    have "(\<Sum>v\<leftarrow>P ! nat a. sint v) =
        (\<Sum>b\<leftarrow>[0..int (length (P ! nat a)) - 1]. sint (P ! nat a ! nat b))"
      by (rule sum_list_by_index)
    with l show "(\<Sum>v\<leftarrow>P ! nat a. sint v) = (\<Sum>b\<leftarrow>[0..height g - 1]. sint (P ! nat a ! nat b))"
      by simp
  qed
  finally show ?thesis .
qed

lemma grid_sum_int:
  "int (grid_sum g f) = (\<Sum>a\<leftarrow>[0..width g - 1]. \<Sum>b\<leftarrow>[0..height g - 1]. int (f a b))"
  by (simp add: grid_sum_def sum_list_of_nat [symmetric] o_def)

text \<open>
  Claim C9, as the code has it.  On a well-formed board whose counts all stay below
  \<open>2 ^ 31\<close>, every cell of the returned map is at least 0, and the sum of all cells is the
  sum, over the entries \<open>L\<close> of the remaining-ship list, of \<open>L\<close> times the number of valid
  placements of length \<open>L\<close> (each valid placement adds 1 to each of the \<open>L\<close> cells it covers).
  Neither the absence of hits nor a non-empty ship list is needed.
\<close>

theorem prob_map_total:
  assumes "wf_board g"
    and "\<forall>x y. 0 \<le> x \<and> x < width g \<and> 0 \<le> y \<and> y < height g \<longrightarrow> placement_count g x y < 2 ^ 31"
  shows "\<exists>P. gen_prob_map g = Inr P \<and>
           (\<forall>col\<in>set P. \<forall>v\<in>set col. 0 \<le> sint v) \<and>
           map_total P = (\<Sum>L\<leftarrow>ships g. int (nat L * placements g L))"
proof -
  from assms(1) have nn: "0 \<le> width g" "0 \<le> height g" by (simp_all add: wf_board_def)
  from gen_prob_map_word [OF assms(1)] obtain P where P: "gen_prob_map g = Inr P"
    "dims (nat (width g)) (nat (height g)) P"
    "\<forall>a b. 0 \<le> a \<and> a < width g \<and> 0 \<le> b \<and> b < height g \<longrightarrow>
       P ! nat a ! nat b = word_of_nat (placement_count g a b)"
    by blast
  have cell: "\<And>a b. 0 \<le> a \<Longrightarrow> a < width g \<Longrightarrow> 0 \<le> b \<Longrightarrow> b < height g \<Longrightarrow>
      sint (P ! nat a ! nat b) = int (placement_count g a b)"
    using P(3) assms(2) by (simp add: sint_count)
  have pos: "\<forall>col\<in>set P. \<forall>v\<in>set col. 0 \<le> sint v"
  proof (intro ballI)
    fix col v assume "col \<in> set P" "v \<in> set col"
    then obtain i j where ij: "i < length P" "col = P ! i" "j < length col" "v = col ! j"
      by (metis in_set_conv_nth)
    with P(2) have "i < nat (width g)" "j < nat (height g)" by (auto simp: dims_def)
    then have "sint (P ! nat (int i) ! nat (int j)) = int (placement_count g (int i) (int j))"
      by (intro cell) simp_all
    with ij show "0 \<le> sint v" by simp
  qed
  have "map_total P = (\<Sum>a\<leftarrow>[0..width g - 1]. \<Sum>b\<leftarrow>[0..height g - 1]. sint (P ! nat a ! nat b))"
    by (rule map_total_grid [OF P(2) nn])
  also have "\<dots> = (\<Sum>a\<leftarrow>[0..width g - 1]. \<Sum>b\<leftarrow>[0..height g - 1]. int (placement_count g a b))"
  proof (rule arg_cong [where f = sum_list], rule map_cong [OF refl],
         rule arg_cong [where f = sum_list], rule map_cong [OF refl])
    fix a b assume "a \<in> set [0..width g - 1]" "b \<in> set [0..height g - 1]"
    then show "sint (P ! nat a ! nat b) = int (placement_count g a b)"
      by (intro cell) simp_all
  qed
  also have "\<dots> = int (grid_sum g (placement_count g))" by (simp only: grid_sum_int)
  also have "\<dots> = (\<Sum>L\<leftarrow>ships g. int (nat L * placements g L))"
    by (simp only: grid_sum_counts sum_list_of_nat [symmetric] map_map o_def)
  finally show ?thesis using P(1) pos by blast
qed

lemma narrow_board_map: "gen_prob_map narrow_board = Inr [[1], [1], [1]]"
  by code_simp

lemma narrow_board_placements: "placements narrow_board 3 = 1"
  by code_simp

text \<open>
  Claim C9 as stated fails: on the fresh 3 x 1 board with one ship of length 3 there is one
  valid placement, the map is \<open>[[1], [1], [1]]\<close>, and its sum 3 is not twice the number of
  valid placements, nor twice anything.
\<close>

theorem prob_map_total_not_twice:
  "ships narrow_board = [3] \<and> board narrow_board = [[''.''], [''.''], [''.'']] \<and>
   gen_prob_map narrow_board = Inr [[1], [1], [1]] \<and>
   map_total [[1], [1], [1]] = 3 \<and>
   (\<Sum>L\<leftarrow>ships narrow_board. int (placements narrow_board L)) = 1 \<and>
   map_total [[1], [1], [1]] \<noteq> 2 * (\<Sum>L\<leftarrow>ships narrow_board. int (placements narrow_board L))"
proof -
  have s: "ships narrow_board = [3]" "board narrow_board = [[''.''], [''.''], [''.'']]"
    by (simp_all add: narrow_board_def new_game_def numeral_3_eq_3)
  have t: "map_total [[1], [1], [1]] = 3" by (simp add: map_total_def)
  from s t narrow_board_map narrow_board_placements show ?thesis by simp
qed

lemma small_board_placements: "placements small_board 2 = 4"
  by code_simp

text \<open>The hypotheses of \<open>prob_map_total\<close> hold on \<open>small_board\<close>, where both sums are 16.\<close>

theorem prob_map_total_witness:
  "wf_board small_board \<and> width small_board = 3 \<and> height small_board = 2 \<and>
   placement_count small_board 0 0 = 2 \<and> placement_count small_board 1 0 = 0 \<and>
   placement_count small_board 2 0 = 2 \<and> placement_count small_board 0 1 = 4 \<and>
   placement_count small_board 1 1 = 4 \<and> placement_count small_board 2 1 = 4 \<and>
   gen_prob_map small_board = Inr [[2, 4], [0, 4], [2, 4]] \<and>
   map_total [[2, 4], [0, 4], [2, 4]] = 16 \<and>
   (\<Sum>L\<leftarrow>ships small_board. int (nat L * placements small_board L)) = 16"
proof -
  have wh: "width small_board = 3" "height small_board = 2" by (simp_all add: small_board_def)
  have lt: "\<forall>x y. 0 \<le> x \<and> x < width small_board \<and> 0 \<le> y \<and> y < height small_board \<longrightarrow>
      placement_count small_board x y < 2 ^ 31"
  proof (intro allI impI)
    fix x y assume "0 \<le> x \<and> x < width small_board \<and> 0 \<le> y \<and> y < height small_board"
    with wh have "(x, y) \<in> set [(0::int, 0::int), (1, 0), (2, 0), (0, 1), (1, 1), (2, 1)]" by auto
    then show "placement_count small_board x y < 2 ^ 31"
      using small_board_counts by auto
  qed
  from prob_map_total [OF wf_small_board lt] small_board_map
  have "map_total [[2, 4], [0, 4], [2, 4]] =
      (\<Sum>L\<leftarrow>ships small_board. int (nat L * placements small_board L))" by simp
  moreover have "map_total [[2, 4], [0, 4], [2, 4]] = 16" by (simp add: map_total_def)
  ultimately show ?thesis using wf_small_board wh small_board_counts small_board_map by simp
qed

subsection \<open>What \<open>predict\<close> returns\<close>

lemma placement_positive_unknown:
  assumes "0 < placement_count g x y"
  shows "is_unknown g x y"
proof (rule ccontr)
  assume n: "\<not> is_unknown g x y"
  have "\<And>ori L. filter (\<lambda>origin. valid_placement g ori L origin \<and>
                                  (x, y) \<in> set (segment ori L origin)) (grid_cells g) = []"
  proof -
    fix ori L
    have "\<forall>origin\<in>set (grid_cells g).
        \<not> (valid_placement g ori L origin \<and> (x, y) \<in> set (segment ori L origin))"
    proof
      fix origin assume "origin \<in> set (grid_cells g)"
      show "\<not> (valid_placement g ori L origin \<and> (x, y) \<in> set (segment ori L origin))"
      proof
        assume "valid_placement g ori L origin \<and> (x, y) \<in> set (segment ori L origin)"
        then have "is_unknown g (fst (x, y)) (snd (x, y))"
          unfolding valid_placement_def by blast
        with n show False by simp
      qed
    qed
    then show "filter (\<lambda>origin. valid_placement g ori L origin \<and>
        (x, y) \<in> set (segment ori L origin)) (grid_cells g) = []"
      by (simp only: filter_empty_conv)
  qed
  then have "placement_count g x y = 0" by (simp add: placement_count_def)
  with assms show False by simp
qed

lemma argwhere_mem:
  assumes "p \<in> set (argwhere P m)"
  shows "\<exists>i j. p = (int i, int j) \<and> i < length P \<and> j < length (P ! i) \<and> sint (P ! i ! j) = m"
  using assms by (auto simp: argwhere_def)

lemma np_max_ge:
  assumes "np_max P = Inr m" "i < length P" "j < length (P ! i)"
  shows "sint (P ! i ! j) \<le> m"
proof -
  from assms(2,3) have "P ! i ! j \<in> set (concat P)" by (auto intro!: bexI [of _ "P ! i"])
  then have "sint (P ! i ! j) \<in> set (map sint (concat P))" by (simp only: set_map image_eqI)
  then have "sint (P ! i ! j) \<le> Max (set (map sint (concat P)))" by (rule Max_ge [OF finite_set])
  moreover from assms(1) have "m = Max (set (map sint (concat P)))"
    by (simp add: np_max_def split: if_splits)
  ultimately show ?thesis by (simp only:)
qed

lemma choice_mem: "choice r xs = Inr p \<Longrightarrow> p \<in> set xs"
  by (auto simp: choice_def split: if_splits)

lemma predict_returns:
  assumes "predict g r = Returns u g'"
  obtains g1 choices p b where
    "(if length (hit_mem g) = 0 then prob_choices g else hit_choices g) = Inr (g1, choices)"
    "p \<in> set choices" "setitem2 (board g1) (fst p) (snd p) ''+'' = Inr b"
    "g' = g1\<lparr>pred := Some p, board := b\<rparr>"
proof -
  let ?m = "if length (hit_mem g) = 0 then prob_choices g else hit_choices g"
  from assms obtain g1 choices where c: "?m = Inr (g1, choices)"
    by (cases ?m) (auto simp: predict_def)
  with assms obtain p where p: "choice r choices = Inr p"
    by (cases "choice r choices") (auto simp: predict_def)
  with assms c obtain b where b: "setitem2 (board g1) (fst p) (snd p) ''+'' = Inr b"
    by (cases "setitem2 (board g1) (fst p) (snd p) ''+''") (auto simp: predict_def Let_def)
  with assms c p have "g' = g1\<lparr>pred := Some p, board := b\<rparr>"
    by (auto simp: predict_def Let_def)
  with c choice_mem [OF p] b show ?thesis by (rule that)
qed

lemma prob_choices_unknown:
  assumes "wf_board g"
    and "\<forall>x y. 0 \<le> x \<and> x < width g \<and> 0 \<le> y \<and> y < height g \<longrightarrow> placement_count g x y < 2 ^ 31"
    and "0 \<le> x0" "x0 < width g" "0 \<le> y0" "y0 < height g" "0 < placement_count g x0 y0"
    and "prob_choices g = Inr (g1, choices)" "p \<in> set choices"
  shows "is_unknown g (fst p) (snd p) \<and> (\<exists>P. g1 = g\<lparr>prob_map := Some P\<rparr>)"
proof -
  from gen_prob_map_word [OF assms(1)] obtain P where P: "gen_prob_map g = Inr P"
    "dims (nat (width g)) (nat (height g)) P"
    "\<forall>a b. 0 \<le> a \<and> a < width g \<and> 0 \<le> b \<and> b < height g \<longrightarrow>
       P ! nat a ! nat b = word_of_nat (placement_count g a b)"
    by blast
  have cell: "\<And>a b. 0 \<le> a \<Longrightarrow> a < width g \<Longrightarrow> 0 \<le> b \<Longrightarrow> b < height g \<Longrightarrow>
      sint (P ! nat a ! nat b) = int (placement_count g a b)"
    using P(3) assms(2) by (simp add: sint_count)
  from assms(8) P(1) obtain m where m: "np_max P = Inr m" "g1 = g\<lparr>prob_map := Some P\<rparr>"
    "choices = argwhere P m"
    by (cases "np_max P") (auto simp: prob_choices_def)
  from assms(3-6) P(2) have "nat x0 < length P" "nat y0 < length (P ! nat x0)"
    by (auto simp: dims_def)
  from np_max_ge [OF m(1) this] cell [OF assms(3-6)] assms(7) have mpos: "0 < m" by simp
  from assms(9) m(3) argwhere_mem obtain i j where ij: "p = (int i, int j)" "i < length P"
    "j < length (P ! i)" "sint (P ! i ! j) = m" by blast
  with P(2) have r: "0 \<le> int i" "int i < width g" "0 \<le> int j" "int j < height g"
    by (auto simp: dims_def)
  from cell [OF r] ij(4) mpos have "0 < placement_count g (int i) (int j)" by simp
  then have "is_unknown g (int i) (int j)" by (rule placement_positive_unknown)
  with ij(1) m(2) show ?thesis by auto
qed

lemma is_run_first:
  assumes "is_run g tx ty dx dy v" "0 < v"
  shows "is_unknown g (tx + dx) (ty + dy)"
proof -
  from assms(2) have "1 \<in> {1..v}" by simp
  with assms(1) have "is_unknown g (tx + 1 * dx) (ty + 1 * dy)" unfolding is_run_def by blast
  then show ?thesis by simp
qed

lemma build_hit_map_entries:
  assumes "wf_board g" "hit_mem g \<noteq> []" "\<forall>t\<in>set (hit_mem g). in_bounds g t"
  shows "\<exists>hs hm. build_hit_map g = Inr (g\<lparr>hit_mem := hs\<rparr>, hm) \<and> mset hs = mset (hit_mem g) \<and>
           hm \<noteq> [] \<and>
           (\<forall>kv\<in>set hm. 0 < snd kv \<longrightarrow> is_unknown g (fst (fst kv)) (snd (fst kv)))"
proof (cases "length (hit_mem g) = 1")
  case True
  let ?t = "hit_mem g ! 0"
  from True have "?t \<in> set (hit_mem g)" by simp
  with assms(3) have b: "0 \<le> fst ?t" "fst ?t < width g" "0 \<le> snd ?t" "snd ?t < height g"
    by (auto simp: in_bounds_def)
  from gen_hit_map_runs [OF assms(1) b] obtain r l d u where m:
    "gen_hit_map g (fst ?t) (snd ?t) =
       Inr [((fst ?t + 1, snd ?t), r), ((fst ?t - 1, snd ?t), l),
            ((fst ?t, snd ?t + 1), d), ((fst ?t, snd ?t - 1), u)]"
    "is_run g (fst ?t) (snd ?t) 1 0 r" "is_run g (fst ?t) (snd ?t) (- 1) 0 l"
    "is_run g (fst ?t) (snd ?t) 0 1 d" "is_run g (fst ?t) (snd ?t) 0 (- 1) u"
    by blast
  let ?hm = "[((fst ?t + 1, snd ?t), r), ((fst ?t - 1, snd ?t), l),
            ((fst ?t, snd ?t + 1), d), ((fst ?t, snd ?t - 1), u)]"
  have e: "build_hit_map g = Inr (g\<lparr>hit_mem := hit_mem g\<rparr>, ?hm)"
    using True m(1) by (simp add: build_hit_map_def)
  have "\<forall>kv\<in>set ?hm. 0 < snd kv \<longrightarrow> is_unknown g (fst (fst kv)) (snd (fst kv))"
    using is_run_first [OF m(2)] is_run_first [OF m(3)] is_run_first [OF m(4)]
      is_run_first [OF m(5)] by simp
  with e show ?thesis by blast
next
  case False
  moreover from assms(2) have "length (hit_mem g) \<noteq> 0" by simp
  ultimately have two: "2 \<le> length (hit_mem g)" by linarith
  show ?thesis
  proof (cases "fst (hit_mem g ! 0) = fst (last (hit_mem g))")
    case True
    from build_hit_map_vertical [OF assms(1) two assms(3) True] obtain lower upper v1 v2 where m:
      "build_hit_map g =
         Inr (g\<lparr>hit_mem := sort_key snd (hit_mem g)\<rparr>,
              [((fst lower, snd lower + 1), v1), ((fst upper, snd upper - 1), v2)])"
      "is_run g (fst lower) (snd lower) 0 1 v1" "is_run g (fst upper) (snd upper) 0 (- 1) v2"
      by blast
    have "\<forall>kv\<in>set [((fst lower, snd lower + 1), v1), ((fst upper, snd upper - 1), v2)].
        0 < snd kv \<longrightarrow> is_unknown g (fst (fst kv)) (snd (fst kv))"
      using is_run_first [OF m(2)] is_run_first [OF m(3)] by simp
    with m(1) show ?thesis by (intro exI conjI) (assumption, simp_all)
  next
    case f: False
    from build_hit_map_horizontal [OF assms(1) two assms(3) f] obtain high low v1 v2 where m:
      "build_hit_map g =
         Inr (g\<lparr>hit_mem := sort_key fst (hit_mem g)\<rparr>,
              [((fst high + 1, snd high), v1), ((fst low - 1, snd low), v2)])"
      "is_run g (fst high) (snd high) 1 0 v1" "is_run g (fst low) (snd low) (- 1) 0 v2"
      by blast
    have "\<forall>kv\<in>set [((fst high + 1, snd high), v1), ((fst low - 1, snd low), v2)].
        0 < snd kv \<longrightarrow> is_unknown g (fst (fst kv)) (snd (fst kv))"
      using is_run_first [OF m(2)] is_run_first [OF m(3)] by simp
    with m(1) show ?thesis by (intro exI conjI) (assumption, simp_all)
  qed
qed

lemma hit_choices_unknown:
  assumes "wf_board g" "hit_mem g \<noteq> []" "\<forall>t\<in>set (hit_mem g). in_bounds g t"
    and "build_hit_map g = Inr (g1, hm)" "\<exists>kv\<in>set hm. 0 < snd kv"
    and "hit_choices g = Inr (g2, choices)" "p \<in> set choices"
  shows "is_unknown g (fst p) (snd p) \<and> (\<exists>hs. g2 = g\<lparr>hit_mem := hs\<rparr> \<and> mset hs = mset (hit_mem g))"
proof -
  from build_hit_map_entries [OF assms(1-3)] assms(4) obtain hs where h:
    "g1 = g\<lparr>hit_mem := hs\<rparr>" "mset hs = mset (hit_mem g)"
    "\<forall>kv\<in>set hm. 0 < snd kv \<longrightarrow> is_unknown g (fst (fst kv)) (snd (fst kv))"
    by auto
  let ?mx = "Max (set (map snd hm))"
  from assms(4,6) have c: "g2 = g1" "choices = map fst (filter (\<lambda>(key, val). val = ?mx) hm)"
    by (simp_all add: hit_choices_def Let_def)
  from assms(5) obtain kv0 where kv0: "kv0 \<in> set hm" "0 < snd kv0" by blast
  then have "snd kv0 \<in> set (map snd hm)" by (simp only: set_map image_eqI)
  then have "snd kv0 \<le> ?mx" by (rule Max_ge [OF finite_set])
  with kv0 have mpos: "0 < ?mx" by linarith
  from assms(7) c(2) obtain v where "(p, v) \<in> set hm" "v = ?mx" by auto
  with mpos h(3) have "is_unknown g (fst p) (snd p)" by fastforce
  with c(1) h(1,2) show ?thesis by blast
qed

lemma length_grid_cells: "length (grid_cells g) = nat (width g) * nat (height g)"
  by (simp add: grid_cells_def length_concat o_def sum_list_triv)

lemma placement_count_le:
  "placement_count g x y \<le> length (ships g) * (2 * length (grid_cells g))"
proof -
  have "placement_count g x y \<le> (\<Sum>L\<leftarrow>ships g. 2 * length (grid_cells g))"
    unfolding placement_count_def
  proof (rule sum_list_mono)
    fix L assume "L \<in> set (ships g)"
    have "length (filter (\<lambda>origin. valid_placement g Horizontal L origin \<and>
                (x, y) \<in> set (segment Horizontal L origin)) (grid_cells g)) +
          length (filter (\<lambda>origin. valid_placement g Vertical L origin \<and>
                (x, y) \<in> set (segment Vertical L origin)) (grid_cells g))
          \<le> length (grid_cells g) + length (grid_cells g)"
      by (intro add_mono length_filter_le)
    then show "(\<Sum>ori\<leftarrow>[Horizontal, Vertical].
             length (filter (\<lambda>origin. valid_placement g ori L origin \<and>
                (x, y) \<in> set (segment ori L origin)) (grid_cells g))) \<le> 2 * length (grid_cells g)"
      by simp
  qed
  then show ?thesis by (simp add: sum_list_triv)
qed

text \<open>
  Claim C4, as the code has it.  On a well-formed board with the pending hits inside the grid
  (and counts below \<open>2 ^ 31\<close>), a call of \<open>predict\<close> that returns has chosen a coordinate
  whose mark was unknown at the time of the call, and has marked it \<open>'+'\<close>, provided some
  candidate scores more than 0: without pending hits, some placement of a remaining ship is
  still valid; with pending hits, some entry of the hit map has a positive run length.
\<close>

theorem predict_returns_unknown:
  assumes "wf_board g" "\<forall>t\<in>set (hit_mem g). in_bounds g t"
    and "\<forall>x y. 0 \<le> x \<and> x < width g \<and> 0 \<le> y \<and> y < height g \<longrightarrow> placement_count g x y < 2 ^ 31"
    and "predict g r = Returns u g'"
    and "if hit_mem g = [] then \<exists>x y. 0 < placement_count g x y
         else \<exists>g1 hm. build_hit_map g = Inr (g1, hm) \<and> (\<exists>kv\<in>set hm. 0 < snd kv)"
  shows "\<exists>x y. pred g' = Some (x, y) \<and> is_unknown g x y \<and> getitem2 (board g') x y = Inr ''+''"
proof -
  from assms(4) obtain g1 choices p b where c:
    "(if length (hit_mem g) = 0 then prob_choices g else hit_choices g) = Inr (g1, choices)"
    "p \<in> set choices" "setitem2 (board g1) (fst p) (snd p) ''+'' = Inr b"
    "g' = g1\<lparr>pred := Some p, board := b\<rparr>"
    by (rule predict_returns)
  have u: "is_unknown g (fst p) (snd p)"
  proof (cases "hit_mem g = []")
    case True
    with assms(5) obtain x0 y0 where pos: "0 < placement_count g x0 y0" by auto
    from placement_positive_unknown [OF pos]
    have r: "0 \<le> x0" "x0 < width g" "0 \<le> y0" "y0 < height g" by (simp_all add: is_unknown_def)
    from True c(1) have "prob_choices g = Inr (g1, choices)" by simp
    from prob_choices_unknown [OF assms(1,3) r pos this c(2)] show ?thesis by simp
  next
    case False
    with assms(5) obtain g0 hm where h: "build_hit_map g = Inr (g0, hm)" "\<exists>kv\<in>set hm. 0 < snd kv"
      by auto
    from False c(1) have "hit_choices g = Inr (g1, choices)" by simp
    from hit_choices_unknown [OF assms(1) False assms(2) h this c(2)] show ?thesis by simp
  qed
  from setitem2_same [OF c(3)] c(4) have "getitem2 (board g') (fst p) (snd p) = Inr ''+''" by simp
  with u c(4) show ?thesis by (intro exI [of _ "fst p"] exI [of _ "snd p"]) simp
qed

text \<open>
  Claim C4 as stated fails.  After the four truthful turns of \<open>side_by_side\<close> the two pending
  hits (1,0) and (2,0) belong to different ships, both candidates (3,0) and (0,0) are misses
  with score 0, and \<open>predict\<close> returns (3,0), whose mark at the time of the call is \<open>'o'\<close>.
\<close>

theorem predict_returns_miss:
  "(case run_calls (new_game [2, 2] ''t'' 4 2) side_by_side of
      Inl e \<Rightarrow> False
    | Inr g \<Rightarrow>
        hit_mem g = [(1, 0), (2, 0)] \<and>
        board g = [[''o'', ''.''], [''x'', ''.''], [''x'', ''.''], [''o'', ''.'']] \<and>
        (case predict g 0 of
           Raises e g' \<Rightarrow> False
         | Returns u g' \<Rightarrow> pred g' = Some (3, 0) \<and> getitem2 (board g) 3 0 = Inr ''o''))"
  by code_simp

lemma single_hit_predict:
  "(case predict single_hit 0 of Returns u g' \<Rightarrow> pred g' = Some (4, 3) | Raises e g' \<Rightarrow> False)"
  by code_simp

lemma small_board_predict:
  "(case predict small_board 0 of Returns u g' \<Rightarrow> pred g' = Some (0, 1) | Raises e g' \<Rightarrow> False)"
  by code_simp

lemma single_hit_build: "build_hit_map single_hit = Inr (single_hit, [((4, 3), 6), ((2, 3), 3), ((3, 4), 6), ((3, 2), 3)])"
  by code_simp

text \<open>
  The hypotheses of \<open>predict_returns_unknown\<close> hold on \<open>single_hit\<close> (a pending hit) and on
  \<open>small_board\<close> (none), with the draw 0.
\<close>

theorem predict_returns_unknown_witness:
  "(wf_board single_hit \<and> list_all (in_bounds single_hit) (hit_mem single_hit) \<and>
    hit_mem single_hit \<noteq> [] \<and>
    (\<exists>g1 hm. build_hit_map single_hit = Inr (g1, hm) \<and> (\<exists>kv\<in>set hm. 0 < snd kv)) \<and>
    pred (state_of (predict single_hit 0)) = Some (4, 3) \<and> is_unknown single_hit 4 3) \<and>
   (wf_board small_board \<and> hit_mem small_board = [] \<and> 0 < placement_count small_board 0 1 \<and>
    pred (state_of (predict small_board 0)) = Some (0, 1) \<and> is_unknown small_board 0 1)"
proof -
  have fields: "width single_hit = 10" "height single_hit = 10" "length (ships single_hit) = 5"
    "hit_mem single_hit = [(3, 3)]"
    by (simp_all add: single_hit_def new_game_def)
  have b1: "\<forall>t\<in>set (hit_mem single_hit). in_bounds single_hit t"
    by (simp add: fields in_bounds_def)
  have n1: "\<forall>x y. 0 \<le> x \<and> x < width single_hit \<and> 0 \<le> y \<and> y < height single_hit \<longrightarrow>
      placement_count single_hit x y < 2 ^ 31"
  proof (intro allI impI)
    fix x y
    have "placement_count single_hit x y \<le>
        length (ships single_hit) * (2 * length (grid_cells single_hit))"
      by (rule placement_count_le)
    also have "\<dots> = 1000" by (simp add: length_grid_cells fields)
    finally show "placement_count single_hit x y < 2 ^ 31" by simp
  qed
  obtain u1 g1 where p1: "predict single_hit 0 = Returns u1 g1" "pred g1 = Some (4, 3)"
    using single_hit_predict by (cases "predict single_hit 0") auto
  have h1: "if hit_mem single_hit = [] then \<exists>x y. 0 < placement_count single_hit x y
      else \<exists>g1 hm. build_hit_map single_hit = Inr (g1, hm) \<and> (\<exists>kv\<in>set hm. 0 < snd kv)"
    using single_hit_build by (simp add: fields)
  from predict_returns_unknown [OF wf_single_hit b1 n1 p1(1) h1] p1(2)
  have r1: "is_unknown single_hit 4 3" by auto
  have fields2: "width small_board = 3" "height small_board = 2" "hit_mem small_board = []"
    by (simp_all add: small_board_def)
  have b2: "\<forall>t\<in>set (hit_mem small_board). in_bounds small_board t" by (simp add: fields2)
  have n2: "\<forall>x y. 0 \<le> x \<and> x < width small_board \<and> 0 \<le> y \<and> y < height small_board \<longrightarrow>
      placement_count small_board x y < 2 ^ 31"
  proof (intro allI impI)
    fix x y
    have "placement_count small_board x y \<le>
        length (ships small_board) * (2 * length (grid_cells small_board))"
      by (rule placement_count_le)
    also have "\<dots> = 24" by (simp add: length_grid_cells fields2) (simp add: small_board_def)
    finally show "placement_count small_board x y < 2 ^ 31" by simp
  qed
  obtain u2 g2 where p2: "predict small_board 0 = Returns u2 g2" "pred g2 = Some (0, 1)"
    using small_board_predict by (cases "predict small_board 0") auto
  have pos: "0 < placement_count small_board 0 1" by (simp add: small_board_counts)
  then have h2: "if hit_mem small_board = [] then \<exists>x y. 0 < placement_count small_board x y
      else \<exists>g1 hm. build_hit_map small_board = Inr (g1, hm) \<and> (\<exists>kv\<in>set hm. 0 < snd kv)"
    by (auto simp: fields2)
  from predict_returns_unknown [OF wf_small_board b2 n2 p2(1) h2] p2(2)
  have r2: "is_unknown small_board 0 1" by auto
  from wf_single_hit b1 h1 p1 r1 wf_small_board fields2(3) pos p2 r2 fields(4)
  show ?thesis by (simp add: list_all_iff)
qed

subsection \<open>The object a raising \<open>predict\<close> leaves\<close>

text \<open>
  \<open>predict_left\<close> agrees with the path that returns: when the choices are computed, it is the
  object they are computed with.  It differs from the object before the call at most in the
  stored map and the order of the hit memory.
\<close>

lemma ebind_Inr_E:
  assumes "ebind m f = Inr y"
  obtains x where "m = Inr x" "f x = Inr y"
  using assms by (cases m) auto

lemma for_loop_left_Inr:
  "for_loop xs body s = Inr s' \<Longrightarrow> for_loop_left xs body left s = s'"
proof (induction xs arbitrary: s)
  case Nil
  then show ?case by simp
next
  case (Cons i rest)
  then show ?case by (cases "body i s") auto
qed

lemma predict_left_prob:
  assumes "prob_choices g = Inr (g1, choices)" "length (hit_mem g) = 0"
  shows "predict_left g = g1"
proof -
  from assms(1) obtain P0 P where P: "np_zeros (width g) (height g) = Inr P0"
    "for_loop (ships g) (\<lambda>ship. for_loop (py_range 0 (height g)) (\<lambda>y.
        for_loop (py_range 0 (width g)) (place_at g ship y))) P0 = Inr P"
    "g1 = g\<lparr>prob_map := Some P\<rparr>"
    by (auto simp: prob_choices_def gen_prob_map_def elim!: ebind_Inr_E)
  from for_loop_left_Inr [OF P(2)] have "gen_prob_map_left g P0 = P"
    by (simp add: gen_prob_map_left_def)
  with P assms(2) show ?thesis by (simp add: predict_left_def)
qed

lemma predict_left_hit:
  assumes "build_hit_map g = Inr (g1, hm)" "length (hit_mem g) \<noteq> 0"
  shows "predict_left g = g1"
proof (cases "length (hit_mem g) = 1")
  case True
  with assms have "g1 = g" by (auto simp: build_hit_map_def elim!: ebind_Inr_E)
  with True show ?thesis by (simp add: predict_left_def)
next
  case False
  show ?thesis
  proof (cases "fst (hit_mem g ! 0) = fst (last (hit_mem g))")
    case True
    with False assms have "g1 = g\<lparr>hit_mem := sort_key snd (hit_mem g)\<rparr>"
      by (auto simp: build_hit_map_def Let_def elim!: ebind_Inr_E)
    with True False assms(2) show ?thesis by (simp add: predict_left_def)
  next
    case f: False
    with False assms have "g1 = g\<lparr>hit_mem := sort_key fst (hit_mem g)\<rparr>"
      by (auto simp: build_hit_map_def Let_def elim!: ebind_Inr_E)
    with f False assms(2) show ?thesis by (simp add: predict_left_def)
  qed
qed


subsection \<open>The hit memory\<close>














lemma hits_marked_except_Nil: "hits_marked_except g [] = hits_marked g"
  by (simp add: hits_marked_def)

















end
